theory Spec2Isabelle
  imports Main "HOL-Library.AList"
begin

section \<open>Python values, exceptions and log records\<close>

text \<open>
  JSON documents as \<open>json.loads\<close> returns them (order context, task requests).
  Floating-point numbers are left out: no modelled operation computes with a number.
\<close>

datatype pyval =
    PNone
  | PBool bool
  | PInt int
  | PStr string
  | PList "pyval list"
  | PDict "(string \<times> pyval) list"

text \<open>
  Exceptions, as values. Every constructor is a subclass of Python's \<open>Exception\<close>,
  so every \<open>except Exception\<close> handler of the source catches all of them.
\<close>

datatype exn =
    ValueError string
  | KeyError string
  | TypeError string
  | RequestException string
  | OtherException string

definition quoted :: "string \<Rightarrow> string" where
  "quoted x = CHR 0x27 # x @ [CHR 0x27]"

text \<open>\<open>str(e)\<close>: a \<open>KeyError\<close> prints its key quoted, the others print their message.\<close>

fun str_exn :: "exn \<Rightarrow> string" where
  "str_exn (ValueError m) = m"
| "str_exn (KeyError k) = quoted k"
| "str_exn (TypeError m) = m"
| "str_exn (RequestException m) = m"
| "str_exn (OtherException m) = m"

text \<open>
  Logger records. Only \<open>warning\<close> and \<open>error\<close> records are kept; \<open>info\<close> and
  \<open>debug\<close> records change nothing the model observes, except where evaluating
  their arguments can raise, which is modelled where it happens.
\<close>

datatype log_level = WARNING | ERROR

type_synonym log_record = "log_level \<times> string"

section \<open>FileTracker (src/core/file\_tracker.py)\<close>

definition MAX_TRACKED_FILES :: nat where
  "MAX_TRACKED_FILES = 4"

text \<open>The dictionary \<open>file_info\<close> built by \<open>add_file\<close>: six fixed keys.\<close>

record file_info =
  fi_path :: string
  fi_filename :: string
  fi_timestamp :: string
  fi_status :: string
  fi_task_type :: string
  fi_details :: string

text \<open>
  The content of \<open>TRACKER_FILE\<close> on disk: no file, a file whose reading raises the
  given exception, or a document.
\<close>

datatype tracker_file =
    Missing
  | Corrupt exn
  | Json "string \<rightharpoonup> file_info list"

text \<open>
  A \<open>FileTracker\<close> object together with the file it persists to: \<open>data\<close> is
  \<open>self.data\<close>, \<open>stored\<close> is \<open>TRACKER_FILE\<close>, \<open>tracker_log\<close> is what
  \<open>self.logger\<close> received, oldest first.
\<close>

record tracker =
  data :: "string \<rightharpoonup> file_info list"
  stored :: tracker_file
  tracker_log :: "log_record list"

definition tracked_types :: "string list" where
  "tracked_types = [''CASE'', ''BOX'', ''COVER'', ''FORDING'', ''FINAL'']"

text \<open>The literal assigned to \<open>self.data\<close> in \<open>__init__\<close>.\<close>

definition initial_data :: "string \<rightharpoonup> file_info list" where
  "initial_data =
     [''CASE'' \<mapsto> [], ''BOX'' \<mapsto> [], ''COVER'' \<mapsto> [], ''FORDING'' \<mapsto> [], ''FINAL'' \<mapsto> []]"

text \<open>
  \<open>_save_data\<close>: \<open>write_error\<close> is the exception, if any, that writing the file
  raises; it is caught and logged, and the file keeps its content.
\<close>

definition save_data :: "exn option \<Rightarrow> tracker \<Rightarrow> tracker" where
  "save_data write_error s =
     (case write_error of
        None \<Rightarrow> s\<lparr>stored := Json (data s)\<rparr>
      | Some e \<Rightarrow>
          s\<lparr>tracker_log := tracker_log s
                 @ [(ERROR, ''Error saving tracked files data: '' @ str_exn e)]\<rparr>)"

text \<open>
  \<open>_load_data\<close>: a stored document gets an empty list for each key of
  \<open>self.data\<close> it lacks and then replaces \<open>self.data\<close> whole, with every
  other key it holds.
\<close>

definition load_data :: "exn option \<Rightarrow> tracker \<Rightarrow> tracker" where
  "load_data write_error s =
     (case stored s of
        Json loaded_data \<Rightarrow>
          s\<lparr>data := (\<lambda>key. if data s key \<noteq> None \<and> loaded_data key = None
                             then Some [] else loaded_data key)\<rparr>
      | Missing \<Rightarrow> save_data write_error s
      | Corrupt e \<Rightarrow>
          s\<lparr>tracker_log := tracker_log s
                 @ [(ERROR, ''Error loading tracked files data: '' @ str_exn e)]\<rparr>)"

text \<open>\<open>FileTracker.__init__\<close>, given the file found on disk.\<close>

definition FileTracker_init :: "tracker_file \<Rightarrow> exn option \<Rightarrow> tracker" where
  "FileTracker_init on_disk write_error =
     load_data write_error \<lparr>data = initial_data, stored = on_disk, tracker_log = []\<rparr>"

text \<open>\<open>os.path.basename\<close> (POSIX): what follows the last slash.\<close>

definition basename :: "string \<Rightarrow> string" where
  "basename p = rev (takeWhile (\<lambda>c. c \<noteq> CHR ''/'') (rev p))"

text \<open>\<open>d.get(key, default)\<close> on a dictionary with string values.\<close>

definition get_str :: "(string \<rightharpoonup> string) \<Rightarrow> string \<Rightarrow> string \<Rightarrow> string" where
  "get_str d key dflt = (case d key of Some v \<Rightarrow> v | None \<Rightarrow> dflt)"

definition make_file_info :: "string \<Rightarrow> string \<Rightarrow> (string \<rightharpoonup> string) option \<Rightarrow> file_info" where
  "make_file_info task_type file_path metadata =
     (let md = (case metadata of None \<Rightarrow> Map.empty | Some m \<Rightarrow> m)
      in \<lparr>fi_path = file_path,
          fi_filename = basename file_path,
          fi_timestamp = get_str md ''timestamp'' [],
          fi_status = get_str md ''status'' ''UNKNOWN'',
          fi_task_type = task_type,
          fi_details = get_str md ''details'' []\<rparr>)"

text \<open>
  \<open>add_file\<close>. \<open>path_exists\<close> is \<open>os.path.exists\<close> at the time of the call,
  \<open>write_error\<close> the exception, if any, of the write in \<open>_save_data\<close>.
\<close>

definition add_file ::
  "(string \<Rightarrow> bool) \<Rightarrow> exn option \<Rightarrow> string \<Rightarrow> string \<Rightarrow> (string \<rightharpoonup> string) option
     \<Rightarrow> tracker \<Rightarrow> tracker" where
  "add_file path_exists write_error task_type file_path metadata s =
     (case data s task_type of
        None \<Rightarrow>
          s\<lparr>tracker_log := tracker_log s @ [(WARNING, ''Unknown task type: '' @ task_type)]\<rparr>
      | Some files \<Rightarrow>
          if \<not> path_exists file_path then
            s\<lparr>tracker_log := tracker_log s @ [(WARNING, ''File does not exist: '' @ file_path)]\<rparr>
          else
            save_data write_error
              (s\<lparr>data := (data s)(task_type \<mapsto>
                    take MAX_TRACKED_FILES (make_file_info task_type file_path metadata # files))\<rparr>))"

text \<open>\<open>get_files\<close>: an empty \<open>task_type\<close> is falsy and selects every list.\<close>

definition get_files :: "string option \<Rightarrow> tracker \<Rightarrow> (string \<rightharpoonup> file_info list)" where
  "get_files task_type s =
     (case task_type of
        None \<Rightarrow> data s
      | Some t \<Rightarrow>
          if t \<noteq> [] then
            (case data s t of Some files \<Rightarrow> [t \<mapsto> files] | None \<Rightarrow> [t \<mapsto> []])
          else data s)"

text \<open>One call of \<open>add_file\<close> with the world it runs in.\<close>

record add_call =
  ac_exists :: "string \<Rightarrow> bool"
  ac_write_error :: "exn option"
  ac_task_type :: string
  ac_file_path :: string
  ac_metadata :: "(string \<rightharpoonup> string) option"

definition do_add :: "add_call \<Rightarrow> tracker \<Rightarrow> tracker" where
  "do_add c s =
     add_file (ac_exists c) (ac_write_error c) (ac_task_type c) (ac_file_path c) (ac_metadata c) s"

fun add_files :: "add_call list \<Rightarrow> tracker \<Rightarrow> tracker" where
  "add_files [] s = s"
| "add_files (c # cs) s = add_files cs (do_add c s)"

text \<open>
  The records a sequence of calls makes for one task type, oldest first: the calls for
  that type whose file exists.
\<close>

definition recorded :: "string \<Rightarrow> add_call list \<Rightarrow> file_info list" where
  "recorded t cs =
     map (\<lambda>c. make_file_info t (ac_file_path c) (ac_metadata c))
       (filter (\<lambda>c. ac_task_type c = t \<and> ac_exists c (ac_file_path c)) cs)"

section \<open>AIControlSystem (src/core/ai\_control\_system.py)\<close>

subsection \<open>State\<close>

text \<open>One entry of \<open>self.task_statuses\<close>.\<close>

record status_info =
  status :: string
  index :: int

text \<open>
  The content of \<open>ORDER_DATA_FILE\<close> on disk: no file, a file of size 0, a file that
  is not JSON, a file whose reading raises the given exception, or a document.
\<close>

datatype order_file =
    NoFile
  | EmptyFile
  | InvalidJson
  | ReadError exn
  | OrderJson "string \<rightharpoonup> pyval"

text \<open>
  A task request as the queue holds it. \<open>START\<close> is a string where present, as the
  signatures of \<open>update_task_status\<close>, \<open>add_file\<close> and \<open>upload_file\<close>, which
  receive it, declare; \<open>payload\<close> is every other key.
\<close>

record task_request =
  START :: "string option"
  payload :: "string \<rightharpoonup> pyval"

text \<open>\<open>task_request.get("START", "UNKNOWN_TASK")\<close>.\<close>

definition get_START :: "task_request \<Rightarrow> string" where
  "get_START req = (case START req of Some t \<Rightarrow> t | None \<Rightarrow> ''UNKNOWN_TASK'')"

text \<open>The dictionary \<open>task_data\<close> handed to an analysis method.\<close>

record task_data =
  order_data :: "string \<rightharpoonup> pyval"
  task_request :: task_request

text \<open>
  An analysis method returns a \<open>Dict[str, str]\<close> or raises. The five methods of
  \<open>TaskAnalyzer\<close> drive cameras and vision models; they are parameters here.
\<close>

type_synonym analysis = "task_data \<Rightarrow> exn + (string \<rightharpoonup> string)"

record task_analyzer =
  case_task_analysis :: analysis
  box_task_analysis :: analysis
  cover_task_analysis :: analysis
  folding_task_analysis :: analysis
  final_check_task_analysis :: analysis

text \<open>The dictionary \<open>result\<close> returned by \<open>process_task_analysis\<close>.\<close>

record task_result =
  NAME :: string
  RESULT :: string
  ORDER_NO :: pyval
  CONFIDENCE :: string
  DETAILS :: string

text \<open>
  Calls that leave the process, in the order they are made: an invocation of
  \<open>upload_file\<close> (file path, task type, details, order number), the POST of a result
  to Node-RED, the POST of one ping (task type, time).
\<close>

datatype event =
    UploadFile string string string string
  | NodeRedPost task_result
  | Ping string string

text \<open>
  What one task meets outside the process: the analysis methods, \<open>os.path.exists\<close>,
  the exception, if any, of writing the tracker file, \<open>datetime.now()\<close> formatted,
  the outcome of reading and posting the file to \<open>UPLOAD_API\<close> (an exception, or the
  status code and text of the response), and the exception, if any, of the POST to
  Node-RED with \<open>raise_for_status\<close>.
\<close>

record world =
  TaskAnalyzer :: task_analyzer
  os_path_exists :: "string \<Rightarrow> bool"
  tracker_write_error :: "exn option"
  now :: string
  upload_response :: "exn + (nat \<times> string)"
  nodered_response :: "exn option"

text \<open>
  The object and the module-level state it works on. \<open>task_statuses\<close> keeps the
  dictionary's insertion order, which the ping loop iterates in. \<open>global_task_lock\<close>
  is \<open>True\<close> while the lock is held.
\<close>

record system =
  task_statuses :: "(string \<times> status_info) list"
  order_data_file :: order_file
  file_tracker :: tracker
  global_task_lock :: bool
  is_processing :: bool
  events :: "event list"
  logged :: "log_record list"

definition log_error :: "string \<Rightarrow> system \<Rightarrow> system" where
  "log_error msg s = s\<lparr>logged := logged s @ [(ERROR, msg)]\<rparr>"

definition log_warning :: "string \<Rightarrow> system \<Rightarrow> system" where
  "log_warning msg s = s\<lparr>logged := logged s @ [(WARNING, msg)]\<rparr>"

definition emit :: "event \<Rightarrow> system \<Rightarrow> system" where
  "emit e s = s\<lparr>events := events s @ [e]\<rparr>"

text \<open>
  \<open>__init__\<close>: the status table, and \<open>_ensure_order_data_file_exists\<close>, which
  writes \<open>{}\<close> where no file exists (a failure of that write aborts the
  construction and has no state to describe). \<open>file_tracker\<close> is the singleton
  created when its module is imported.
\<close>

definition initial_task_statuses :: "(string \<times> status_info) list" where
  "initial_task_statuses =
     [(''CASE'', \<lparr>status = ''IDLE'', index = 0\<rparr>),
      (''BOX'', \<lparr>status = ''IDLE'', index = 0\<rparr>),
      (''COVER'', \<lparr>status = ''IDLE'', index = 0\<rparr>),
      (''FORDING'', \<lparr>status = ''IDLE'', index = 0\<rparr>),
      (''FINAL'', \<lparr>status = ''IDLE'', index = 0\<rparr>)]"

definition AIControlSystem_init :: "order_file \<Rightarrow> tracker \<Rightarrow> system" where
  "AIControlSystem_init on_disk tr =
     \<lparr>task_statuses = initial_task_statuses,
      order_data_file = (case on_disk of NoFile \<Rightarrow> OrderJson Map.empty | f \<Rightarrow> f),
      file_tracker = tr,
      global_task_lock = False,
      is_processing = False,
      events = [],
      logged = []\<rparr>"

subsection \<open>Order context\<close>

definition required_fields :: "string list" where
  "required_fields = [''ORDER_NO'', ''ITEM_CD'', ''ITEM_NM'', ''ITEM_CLASS'', ''BOM'', ''RECIPE'']"

text \<open>\<open>len(v)\<close>: defined on strings, lists and dictionaries, a \<open>TypeError\<close> elsewhere.\<close>

fun py_len :: "pyval \<Rightarrow> exn + nat" where
  "py_len (PStr x) = Inr (length x)"
| "py_len (PList xs) = Inr (length xs)"
| "py_len (PDict kvs) = Inr (length kvs)"
| "py_len PNone = Inl (TypeError (''object of type '' @ quoted ''NoneType'' @ '' has no len()''))"
| "py_len (PBool b) = Inl (TypeError (''object of type '' @ quoted ''bool'' @ '' has no len()''))"
| "py_len (PInt i) = Inl (TypeError (''object of type '' @ quoted ''int'' @ '' has no len()''))"

text \<open>\<open>len(message_data[key])\<close>, as the log call after the write evaluates it.\<close>

definition len_of_field :: "(string \<rightharpoonup> pyval) \<Rightarrow> string \<Rightarrow> exn + nat" where
  "len_of_field message_data key =
     (case message_data key of None \<Rightarrow> Inl (KeyError key) | Some v \<Rightarrow> py_len v)"

text \<open>
  The \<open>try\<close> block of \<open>process_web_message\<close>: the first missing required field
  raises before the file is opened; \<open>open_error\<close> is the exception, if any, that opening it raises;
  the counts logged after the write raise where \<open>BOM\<close> or \<open>RECIPE\<close> has no length.
\<close>

definition web_message_body :: "exn option \<Rightarrow> (string \<rightharpoonup> pyval) \<Rightarrow> system \<Rightarrow> (exn + unit) \<times> system" where
  "web_message_body open_error message_data s =
     (case find (\<lambda>field. message_data field = None) required_fields of
        Some field \<Rightarrow> (Inl (ValueError (''Missing required field: '' @ field)), s)
      | None \<Rightarrow>
          (case open_error of
             Some e \<Rightarrow> (Inl e, s)
           | None \<Rightarrow>
               (let s1 = s\<lparr>order_data_file := OrderJson message_data\<rparr>
                in case len_of_field message_data ''BOM'' of
                     Inl e \<Rightarrow> (Inl e, s1)
                   | Inr _ \<Rightarrow>
                       (case len_of_field message_data ''RECIPE'' of
                          Inl e \<Rightarrow> (Inl e, s1)
                        | Inr _ \<Rightarrow> (Inr (), s1)))))"

text \<open>\<open>process_web_message\<close>: the handler logs the exception and raises it again.\<close>

definition process_web_message ::
  "exn option \<Rightarrow> (string \<rightharpoonup> pyval) \<Rightarrow> system \<Rightarrow> (exn + unit) \<times> system" where
  "process_web_message open_error message_data s =
     (case web_message_body open_error message_data s of
        (Inl e, s1) \<Rightarrow> (Inl e, log_error (''Error processing web message: '' @ str_exn e) s1)
      | (Inr u, s1) \<Rightarrow> (Inr u, s1))"

text \<open>\<open>get_current_order_data\<close>: every failure is logged and answered with \<open>{}\<close>.\<close>

definition get_current_order_data :: "system \<Rightarrow> (string \<rightharpoonup> pyval) \<times> system" where
  "get_current_order_data s =
     (case order_data_file s of
        OrderJson doc \<Rightarrow> (doc, s)
      | InvalidJson \<Rightarrow> (Map.empty, log_error ''Invalid JSON in order data file'' s)
      | ReadError e \<Rightarrow>
          (Map.empty, log_error (''Error reading order data file: '' @ str_exn e) s)
      | _ \<Rightarrow> (Map.empty, log_warning ''Order data file empty or not found'' s))"

subsection \<open>Status registry\<close>

text \<open>
  \<open>update_task_status\<close>: a task type outside \<open>self.task_statuses\<close> changes
  nothing; a known one gets the new status and its index incremented, in place.
\<close>

definition update_task_status :: "string \<Rightarrow> string \<Rightarrow> system \<Rightarrow> system" where
  "update_task_status task_type new_status s =
     (case map_of (task_statuses s) task_type of
        None \<Rightarrow> s
      | Some info \<Rightarrow>
          s\<lparr>task_statuses :=
               AList.update task_type \<lparr>status = new_status, index = index info + 1\<rparr>
                 (task_statuses s)\<rparr>)"

subsection \<open>Upload and task analysis\<close>

text \<open>Status codes are printed in decimal in the log messages.\<close>

function str_nat :: "nat \<Rightarrow> string" where
  "str_nat n =
     (if n < 10 then [char_of (48 + n)] else str_nat (n div 10) @ [char_of (48 + n mod 10)])"
  by pat_completeness auto
termination
  by (relation "measure id") auto

text \<open>
  \<open>os.path.splitext(p)[1]\<close> (POSIX): what starts at the last dot of the last path
  component, unless only dots precede it there.
\<close>

definition splitext_ext :: "string \<Rightarrow> string" where
  "splitext_ext p =
     (let name = basename p;
          after = rev (takeWhile (\<lambda>c. c \<noteq> CHR ''.'') (rev name));
          stem = take (length name - Suc (length after)) name
      in if CHR ''.'' \<in> set name \<and> list_ex (\<lambda>c. c \<noteq> CHR ''.'') stem
         then CHR ''.'' # after else [])"

text \<open>
  \<open>str.lower\<close> on the letters \<open>A\<close> to \<open>Z\<close>; no other character is turned into a
  letter of the extensions listed below.
\<close>

definition ascii_lower :: "char \<Rightarrow> char" where
  "ascii_lower c =
     (if 65 \<le> (of_char c :: nat) \<and> (of_char c :: nat) \<le> 90
      then char_of ((of_char c :: nat) + 32) else c)"

text \<open>The \<open>file_type\<close> that \<open>upload_file\<close> works out from the extension, for its log.\<close>

definition file_type_of :: "string \<Rightarrow> string" where
  "file_type_of file_path =
     (let file_extension = map ascii_lower (splitext_ext file_path)
      in if file_extension \<in> set [''.jpg'', ''.jpeg'', ''.png'', ''.bmp'', ''.tiff'']
         then ''IMAGE''
         else if file_extension \<in> set [''.mp4'', ''.avi'', ''.mov'', ''.wmv'', ''.flv'']
         then ''VIDEO''
         else ''FILE'')"

text \<open>
  \<open>upload_file\<close>: \<open>False\<close> where the file is missing, where anything raises, and
  where the response is not 200; each of them is logged as an error.
\<close>

definition upload_file ::
  "world \<Rightarrow> string \<Rightarrow> string \<Rightarrow> string \<Rightarrow> string \<Rightarrow> system \<Rightarrow> bool \<times> system" where
  "upload_file w file_path task_type details order_no s =
     (let s0 = emit (UploadFile file_path task_type details order_no) s
      in if \<not> os_path_exists w file_path then
           (False, log_error (''File not found: '' @ file_path) s0)
         else
           (case upload_response w of
              Inl e \<Rightarrow>
                (False, log_error (''Error uploading file '' @ file_path @ '': '' @ str_exn e) s0)
            | Inr (status_code, body) \<Rightarrow>
                if status_code = 200 then (True, s0)
                else (False, log_error (''Failed to upload '' @ file_type_of file_path @ '': ''
                                          @ str_nat status_code @ '' - '' @ body) s0)))"

text \<open>The fallback entry set with \<open>setdefault\<close>.\<close>

definition unknown_task :: analysis where
  "unknown_task = (\<lambda>_. Inr [''status'' \<mapsto> ''ERROR'', ''details'' \<mapsto> ''Unknown task''])"

definition task_analysis_map :: "task_analyzer \<Rightarrow> (string \<rightharpoonup> analysis)" where
  "task_analysis_map ta =
     [''CASE'' \<mapsto> case_task_analysis ta,
      ''BOX'' \<mapsto> box_task_analysis ta,
      ''COVER'' \<mapsto> cover_task_analysis ta,
      ''FORDING'' \<mapsto> folding_task_analysis ta,
      ''FINAL'' \<mapsto> final_check_task_analysis ta,
      ''unknown_task'' \<mapsto> unknown_task]"

text \<open>
  \<open>self.task_analysis_map.get(task_name, self.task_analysis_map["unknown_task"])\<close>.
\<close>

definition analysis_method_for :: "task_analyzer \<Rightarrow> string \<Rightarrow> analysis" where
  "analysis_method_for ta task_name =
     (case task_analysis_map ta task_name of
        Some m \<Rightarrow> m
      | None \<Rightarrow> unknown_task)"

text \<open>The dictionary \<open>file_metadata\<close> handed to \<open>add_file\<close>.\<close>

definition file_metadata :: "world \<Rightarrow> (string \<rightharpoonup> string) \<Rightarrow> (string \<rightharpoonup> string)" where
  "file_metadata w analysis_result =
     [''timestamp'' \<mapsto> now w,
      ''status'' \<mapsto> get_str analysis_result ''status'' ''UNKNOWN'',
      ''details'' \<mapsto> get_str analysis_result ''details'' []]"

text \<open>
  The block of \<open>process_task_analysis\<close> guarded by a non-empty \<open>saved_file_path\<close>:
  \<open>add_file\<close> first, then \<open>upload_file\<close> where the status is \<open>NG\<close>. Reading
  \<open>analysis_result["status"]\<close> or \<open>["details"]\<close> raises \<open>KeyError\<close> where the key
  is absent. The flag \<open>file_uploaded\<close> it stores in the local dictionary is never
  read again and is not kept.
\<close>

definition track_and_upload ::
  "world \<Rightarrow> string \<Rightarrow> (string \<rightharpoonup> string) \<Rightarrow> system \<Rightarrow> (exn + unit) \<times> system" where
  "track_and_upload w task_name analysis_result s =
     (case analysis_result ''saved_file_path'' of
        None \<Rightarrow> (Inr (), s)
      | Some saved_file_path \<Rightarrow>
          if saved_file_path = [] then (Inr (), s)
          else
            (let s1 = s\<lparr>file_tracker :=
                         add_file (os_path_exists w) (tracker_write_error w) task_name
                           saved_file_path (Some (file_metadata w analysis_result))
                           (file_tracker s)\<rparr>
             in case analysis_result ''status'' of
                  None \<Rightarrow> (Inl (KeyError ''status''), s1)
                | Some st \<Rightarrow>
                    if st = ''NG'' then
                      (case analysis_result ''details'' of
                         None \<Rightarrow> (Inl (KeyError ''details''), s1)
                       | Some d \<Rightarrow>
                           (Inr (), snd (upload_file w saved_file_path task_name d ''UNKNOWN'' s1)))
                    else (Inr (), s1)))"

text \<open>
  The \<open>try\<close> block of \<open>process_task_analysis\<close>, with the state at the point where
  it raises or returns.
\<close>

definition task_analysis_body ::
  "world \<Rightarrow> task_request \<Rightarrow> string \<Rightarrow> system \<Rightarrow> (exn + task_result) \<times> system" where
  "task_analysis_body w req task_name s =
     (let s1 = update_task_status task_name ''RUNNING'' s;
          analysis_method = analysis_method_for (TaskAnalyzer w) task_name;
          (order_data, s2) = get_current_order_data s1;
          task_data = \<lparr>order_data = order_data, task_request = req\<rparr>
      in case analysis_method task_data of
           Inl e \<Rightarrow> (Inl e, s2)
         | Inr analysis_result \<Rightarrow>
             (case track_and_upload w task_name analysis_result s2 of
                (Inl e, s3) \<Rightarrow> (Inl e, s3)
              | (Inr _, s3) \<Rightarrow>
                  (let result =
                         \<lparr>NAME = task_name,
                          RESULT = get_str analysis_result ''status''
                                     (if analysis_result ''status'' = Some ''COMPLETED''
                                      then ''OK'' else ''ERROR''),
                          ORDER_NO = (case order_data ''ORDER_NO'' of
                                        Some v \<Rightarrow> v | None \<Rightarrow> PStr ''UNKNOWN''),
                          CONFIDENCE = get_str analysis_result ''confidence'' ''0%'',
                          DETAILS = get_str analysis_result ''details'' ''No details available''\<rparr>
                   in if RESULT result = ''OK''
                      then (Inr result, update_task_status task_name ''COMPLETED'' s3)
                      else (Inr result, update_task_status task_name ''ERROR'' s3))))"

text \<open>
  \<open>process_task_analysis\<close>: whatever the \<open>try\<close> block raises is answered with the
  status \<open>ERROR\<close> and an error result; nothing escapes.
\<close>

definition process_task_analysis :: "world \<Rightarrow> task_request \<Rightarrow> system \<Rightarrow> task_result \<times> system" where
  "process_task_analysis w req s =
     (let task_name = get_START req
      in case task_analysis_body w req task_name s of
           (Inr result, s1) \<Rightarrow> (result, s1)
         | (Inl e, s1) \<Rightarrow>
             (\<lparr>NAME = task_name, RESULT = ''ERROR'', ORDER_NO = PStr ''UNKNOWN'',
               CONFIDENCE = ''0%'', DETAILS = ''Error: '' @ str_exn e\<rparr>,
              log_error (''Error processing task analysis: '' @ str_exn e)
                (update_task_status task_name ''ERROR'' s1)))"

subsection \<open>Result delivery and the task worker\<close>

text \<open>
  \<open>send_result_to_node_red\<close>: a \<open>RequestException\<close> is logged and raised again;
  any other exception passes through.
\<close>

definition send_result_to_node_red :: "world \<Rightarrow> task_result \<Rightarrow> system \<Rightarrow> (exn + unit) \<times> system" where
  "send_result_to_node_red w result s =
     (let s0 = emit (NodeRedPost result) s
      in case nodered_response w of
           None \<Rightarrow> (Inr (), s0)
         | Some (RequestException m) \<Rightarrow>
             (Inl (RequestException m), log_error (''Failed to send results to Node-RED: '' @ m) s0)
         | Some e \<Rightarrow> (Inl e, s0))"

text \<open>
  One iteration of \<open>global_task_worker\<close> on a dequeued request. Acquiring
  \<open>global_task_lock\<close> while it is held never returns: \<open>None\<close>. The \<open>with\<close>
  statement releases the lock when its block returns and when it raises; the handler
  then forces the status to \<open>ERROR\<close>; the \<open>finally\<close> clause clears the flag.
\<close>

definition worker_iteration :: "world \<Rightarrow> task_request \<Rightarrow> system \<Rightarrow> system option" where
  "worker_iteration w req s =
     (if global_task_lock s then None
      else
        (let s1 = s\<lparr>global_task_lock := True\<rparr>;
             s2 = s1\<lparr>is_processing := True\<rparr>;
             (result, s3) = process_task_analysis w req s2;
             (sent, s4) = send_result_to_node_red w result s3;
             s5 = s4\<lparr>global_task_lock := False\<rparr>;
             s6 = (case sent of
                     Inr _ \<Rightarrow> s5
                   | Inl e \<Rightarrow>
                       (let task_type = get_START req
                        in update_task_status task_type ''ERROR''
                             (log_error (''Error in global worker processing '' @ task_type
                                           @ '': '' @ str_exn e) s5)))
         in Some (s6\<lparr>is_processing := False\<rparr>)))"

text \<open>\<open>global_task_worker\<close> on the requests it dequeues, each with its world.\<close>

fun global_task_worker :: "(world \<times> task_request) list \<Rightarrow> system \<Rightarrow> system option" where
  "global_task_worker [] s = Some s"
| "global_task_worker ((w, req) # rest) s =
     (case worker_iteration w req s of
        None \<Rightarrow> None
      | Some s1 \<Rightarrow> global_task_worker rest s1)"

subsection \<open>Heartbeat\<close>

text \<open>
  What one cycle of \<open>ping_status_worker\<close> meets: the date it prints and, for each
  task type, the outcome of the POST to \<open>PING_API\<close>.
\<close>

record ping_world =
  ping_time :: string
  ping_response :: "string \<Rightarrow> exn + (nat \<times> string)"

text \<open>
  The \<open>for\<close> loop over \<open>self.task_statuses.items()\<close>: a response other than 200
  is logged and the loop goes on; an exception leaves the loop.
\<close>

fun ping_items ::
  "ping_world \<Rightarrow> (string \<times> status_info) list \<Rightarrow> system \<Rightarrow> exn option \<times> system" where
  "ping_items pw [] s = (None, s)"
| "ping_items pw ((task_type, status_info) # rest) s =
     (let s1 = emit (Ping task_type (ping_time pw)) s
      in case ping_response pw task_type of
           Inl e \<Rightarrow> (Some e, s1)
         | Inr (status_code, body) \<Rightarrow>
             if status_code = 200 then ping_items pw rest s1
             else ping_items pw rest
                    (log_warning (''Ping status update for '' @ task_type @ '' failed: ''
                                    @ str_nat status_code @ '' - '' @ body) s1))"

text \<open>
  One pass of the \<open>while True\<close> loop: the \<open>try\<close> encloses the whole \<open>for\<close>
  loop, and its handler logs the exception.
\<close>

definition ping_cycle :: "ping_world \<Rightarrow> system \<Rightarrow> system" where
  "ping_cycle pw s =
     (case ping_items pw (task_statuses s) s of
        (None, s1) \<Rightarrow> s1
      | (Some e, s1) \<Rightarrow> log_error (''Error in ping status worker: '' @ str_exn e) s1)"

text \<open>\<open>ping_status_worker\<close> over the cycles it runs, one world for each.\<close>

fun ping_status_worker :: "ping_world list \<Rightarrow> system \<Rightarrow> system" where
  "ping_status_worker [] s = s"
| "ping_status_worker (pw # pws) s = ping_status_worker pws (ping_cycle pw s)"


section \<open>Observations used by the properties\<close>

text \<open>The revision counter and the state of one task type, as a status reader sees them.\<close>

definition revision :: "string \<Rightarrow> system \<Rightarrow> int" where
  "revision t s = (case map_of (task_statuses s) t of Some info \<Rightarrow> index info | None \<Rightarrow> 0)"

definition status_of :: "string \<Rightarrow> system \<Rightarrow> string option" where
  "status_of t s = map_option status (map_of (task_statuses s) t)"

text \<open>
  The revisions of task type \<open>t\<close> seen right after each transition of \<open>t\<close>, along a
  sequence of calls of \<open>update_task_status\<close> on any task types.
\<close>

fun revisions_seen :: "string \<Rightarrow> (string \<times> string) list \<Rightarrow> system \<Rightarrow> int list" where
  "revisions_seen t [] s = []"
| "revisions_seen t ((task_type, new_status) # us) s =
     (let s1 = update_task_status task_type new_status s
      in (if task_type = t then [revision t s1] else []) @ revisions_seen t us s1)"

text \<open>
  The keys of the status table are the five task types, in the order of the literal in
  \<open>__init__\<close>: true of the initial state and kept by every operation.
\<close>

definition known_registry :: "system \<Rightarrow> bool" where
  "known_registry s = (map fst (task_statuses s) = tracked_types)"

text \<open>
  The result of a task of unknown type: what \<open>process_task_analysis\<close> builds from the
  outcome of the fallback entry and the order number of the current order data.
\<close>

definition unknown_result :: "string \<Rightarrow> system \<Rightarrow> task_result" where
  "unknown_result task_name s =
     \<lparr>NAME = task_name, RESULT = ''ERROR'',
      ORDER_NO = (case fst (get_current_order_data s) ''ORDER_NO'' of
                    Some v \<Rightarrow> v | None \<Rightarrow> PStr ''UNKNOWN''),
      CONFIDENCE = ''0%'', DETAILS = ''Unknown task''\<rparr>"

text \<open>
  The task types one heartbeat cycle sends a ping for: each in turn, up to and including
  the first whose POST raises.
\<close>

fun pinged :: "ping_world \<Rightarrow> string list \<Rightarrow> string list" where
  "pinged pw [] = []"
| "pinged pw (t # ts) = t # (if isl (ping_response pw t) then [] else pinged pw ts)"

definition ping_events :: "ping_world \<Rightarrow> system \<Rightarrow> event list" where
  "ping_events pw s = map (\<lambda>t. Ping t (ping_time pw)) (pinged pw (map fst (task_statuses s)))"

text \<open>
  The outcome of the analysis method that \<open>process_task_analysis\<close> calls for a
  request: the method looked up for its \<open>START\<close>, applied to the current order data
  and the request.
\<close>

definition analysis_outcome :: "world \<Rightarrow> task_request \<Rightarrow> system \<Rightarrow> exn + (string \<rightharpoonup> string)" where
  "analysis_outcome w req s =
     analysis_method_for (TaskAnalyzer w) (get_START req)
       \<lparr>order_data = fst (get_current_order_data s), task_request = req\<rparr>"

text \<open>An outcome carries an artifact where its \<open>saved_file_path\<close> is a non-empty string.\<close>

definition carries_artifact :: "(string \<rightharpoonup> string) \<Rightarrow> bool" where
  "carries_artifact ar = (case ar ''saved_file_path'' of Some p \<Rightarrow> p \<noteq> [] | None \<Rightarrow> False)"




text \<open>
  The tracker holds a list for each of the five tracked types: true of every tracker
  that \<open>__init__\<close> creates and kept by \<open>add_file\<close>.
\<close>

definition tracks_all :: "tracker \<Rightarrow> bool" where
  "tracks_all tr = list_all (\<lambda>t. data tr t \<noteq> None) tracked_types"

text \<open>
  The records one heartbeat cycle logs: a warning for each response other than 200, and
  an error for the first POST that raises, which ends the cycle.
\<close>

fun ping_logs :: "ping_world \<Rightarrow> string list \<Rightarrow> log_record list" where
  "ping_logs pw [] = []"
| "ping_logs pw (t # ts) =
     (case ping_response pw t of
        Inl e \<Rightarrow> [(ERROR, ''Error in ping status worker: '' @ str_exn e)]
      | Inr (status_code, body) \<Rightarrow>
          (if status_code = 200 then []
           else [(WARNING, ''Ping status update for '' @ t @ '' failed: ''
                             @ str_nat status_code @ '' - '' @ body)])
          @ ping_logs pw ts)"

subsection \<open>Example inputs\<close>

definition always_exists :: "string \<Rightarrow> bool" where
  "always_exists p = True"

definition cover_call :: "string \<Rightarrow> add_call" where
  "cover_call p =
     \<lparr>ac_exists = always_exists, ac_write_error = None, ac_task_type = ''COVER'',
      ac_file_path = p, ac_metadata = None\<rparr>"

definition ship_document :: "string \<rightharpoonup> file_info list" where
  "ship_document = [''SHIP'' \<mapsto> []]"

text \<open>Outcomes as \<open>case_task_analysis\<close> returns them: a match, and a mismatch.\<close>

definition ok_outcome :: "string \<rightharpoonup> string" where
  "ok_outcome =
     [''task_name'' \<mapsto> ''case_task'', ''status'' \<mapsto> ''OK'', ''confidence'' \<mapsto> ''95%'',
      ''details'' \<mapsto> ''OK'', ''saved_file_path'' \<mapsto> ''./saved_frames/ok.jpg'']"

definition ng_outcome :: "string \<rightharpoonup> string" where
  "ng_outcome =
     [''task_name'' \<mapsto> ''case_task'', ''status'' \<mapsto> ''NG'', ''confidence'' \<mapsto> ''0%'',
      ''details'' \<mapsto> ''Q002'', ''saved_file_path'' \<mapsto> ''./saved_frames/ng.jpg'']"

definition returning :: "(string \<rightharpoonup> string) \<Rightarrow> analysis" where
  "returning r td = Inr r"

definition analyzer_returning :: "(string \<rightharpoonup> string) \<Rightarrow> task_analyzer" where
  "analyzer_returning r =
     \<lparr>case_task_analysis = returning r, box_task_analysis = returning r,
      cover_task_analysis = returning r, folding_task_analysis = returning r,
      final_check_task_analysis = returning r\<rparr>"

text \<open>A world where every file exists and every upload answers 200.\<close>

definition example_world :: "(string \<rightharpoonup> string) \<Rightarrow> exn option \<Rightarrow> world" where
  "example_world r sink =
     \<lparr>TaskAnalyzer = analyzer_returning r, os_path_exists = always_exists,
      tracker_write_error = None, now = ''2025-01-01 00:00:00'',
      upload_response = Inr (200, ''ok''), nodered_response = sink\<rparr>"

definition case_request :: task_request where
  "case_request = \<lparr>START = Some ''CASE'', payload = Map.empty\<rparr>"

definition ship_request :: task_request where
  "ship_request = \<lparr>START = Some ''SHIP'', payload = Map.empty\<rparr>"

definition initial_system :: system where
  "initial_system = AIControlSystem_init NoFile (FileTracker_init Missing None)"

text \<open>Heartbeat endpoints: one that raises for \<open>CASE\<close>, one that answers 503 for \<open>BOX\<close>.\<close>

definition case_raises :: "string \<Rightarrow> exn + (nat \<times> string)" where
  "case_raises t = (if t = ''CASE'' then Inl (RequestException ''timed out'') else Inr (200, ''ok''))"

definition box_unavailable :: "string \<Rightarrow> exn + (nat \<times> string)" where
  "box_unavailable t = (if t = ''BOX'' then Inr (503, ''unavailable'') else Inr (200, ''ok''))"

definition ping_case_raises :: ping_world where
  "ping_case_raises = \<lparr>ping_time = ''2025-01-01'', ping_response = case_raises\<rparr>"

definition ping_box_unavailable :: ping_world where
  "ping_box_unavailable = \<lparr>ping_time = ''2025-01-02'', ping_response = box_unavailable\<rparr>"

text \<open>A stored order, and an update that lacks \<open>BOM\<close>.\<close>

definition prior_order :: "string \<rightharpoonup> pyval" where
  "prior_order =
     [''ORDER_NO'' \<mapsto> PStr ''A-1'', ''ITEM_CD'' \<mapsto> PStr ''I1'', ''ITEM_NM'' \<mapsto> PStr ''Kit'',
      ''ITEM_CLASS'' \<mapsto> PStr ''K'', ''BOM'' \<mapsto> PList [], ''RECIPE'' \<mapsto> PList []]"

definition order_without_bom :: "string \<rightharpoonup> pyval" where
  "order_without_bom =
     [''ORDER_NO'' \<mapsto> PStr ''A-2'', ''ITEM_CD'' \<mapsto> PStr ''I2'', ''ITEM_NM'' \<mapsto> PStr ''Set'',
      ''ITEM_CLASS'' \<mapsto> PStr ''S'', ''RECIPE'' \<mapsto> PList []]"

definition system_with_order :: system where
  "system_with_order = AIControlSystem_init (OrderJson prior_order) (FileTracker_init Missing None)"

text \<open>
  A world in which the saved file is not on disk, and an \<open>NG\<close> outcome without
  details.
\<close>

definition never_exists :: "string \<Rightarrow> bool" where
  "never_exists p = False"

definition world_without_file :: world where
  "world_without_file = (example_world ng_outcome None)\<lparr>os_path_exists := never_exists\<rparr>"

definition ng_without_details :: "string \<rightharpoonup> string" where
  "ng_without_details =
     [''task_name'' \<mapsto> ''case_task'', ''status'' \<mapsto> ''NG'', ''confidence'' \<mapsto> ''0%'',
      ''saved_file_path'' \<mapsto> ''./saved_frames/ng.jpg'']"

section \<open>Properties of the file tracker\<close>

lemma take_append_take: "take n (xs @ take n ys) = take n (xs @ ys)"
  by (simp add: min_def)

lemma data_save_data: "data (save_data wr s) = data s"
  by (simp add: save_data_def split: option.splits)

lemma fresh_tracker_data: "data (FileTracker_init Missing wr) = initial_data"
  by (simp add: FileTracker_init_def load_data_def data_save_data)

lemma data_do_add:
  "data (do_add c s) t =
     (case data s t of
        None \<Rightarrow> None
      | Some old \<Rightarrow>
          if ac_task_type c = t \<and> ac_exists c (ac_file_path c)
          then Some (take MAX_TRACKED_FILES (make_file_info t (ac_file_path c) (ac_metadata c) # old))
          else Some old)"
  by (auto simp: do_add_def add_file_def data_save_data split: option.splits)

lemma data_add_files:
  "data s t = Some old \<Longrightarrow> length old \<le> MAX_TRACKED_FILES \<Longrightarrow>
   data (add_files cs s) t = Some (take MAX_TRACKED_FILES (rev (recorded t cs) @ old))"
proof (induction cs arbitrary: s old)
  case Nil
  then show ?case by (simp add: recorded_def)
next
  case (Cons c cs)
  show ?case
  proof (cases "ac_task_type c = t \<and> ac_exists c (ac_file_path c)")
    case True
    let ?new = "take MAX_TRACKED_FILES (make_file_info t (ac_file_path c) (ac_metadata c) # old)"
    have d: "data (do_add c s) t = Some ?new"
      using Cons.prems(1) True by (simp add: data_do_add)
    have "data (add_files cs (do_add c s)) t
            = Some (take MAX_TRACKED_FILES (rev (recorded t cs) @ ?new))"
      by (rule Cons.IH [OF d]) simp
    then show ?thesis
      using True by (simp add: recorded_def take_append_take)
  next
    case False
    have d: "data (do_add c s) t = Some old"
      using Cons.prems(1) False by (auto simp add: data_do_add)
    show ?thesis
      using Cons.IH [OF d Cons.prems(2)] False by (auto simp add: recorded_def)
  qed
qed

text \<open>
  Claim C2 (ledger bound). Take a tracker whose list for task type \<open>t\<close> is \<open>old\<close>, of
  length at most \<open>MAX_TRACKED_FILES = 4\<close> (the empty list in a fresh tracker), and let
  any sequence of \<open>add_file\<close> calls run, successful or not, on any task types. Then the
  list of \<open>t\<close> holds the records of the successful calls for \<open>t\<close>, newest first,
  followed by the older entries, cut to the first four: exactly the four most recent
  records, in order, the oldest evicted, and never more than four.
\<close>

theorem ledger_bound:
  assumes "data s t = Some old" and "length old \<le> MAX_TRACKED_FILES"
  shows "\<exists>files. data (add_files cs s) t = Some files
           \<and> files = take MAX_TRACKED_FILES (rev (recorded t cs) @ old)
           \<and> length files \<le> MAX_TRACKED_FILES"
  using data_add_files [OF assms] by simp

text \<open>
  The scenario of the specification: five artifacts recorded for \<open>COVER\<close> in a fresh
  tracker leave the last four, newest first.
\<close>

theorem ledger_bound_witness:
  "\<exists>files. data (add_files (map cover_call [''1.jpg'', ''2.jpg'', ''3.jpg'', ''4.jpg'', ''5.jpg''])
                   (FileTracker_init Missing None)) ''COVER'' = Some files
     \<and> map fi_path files = [''5.jpg'', ''4.jpg'', ''3.jpg'', ''2.jpg'']
     \<and> length files \<le> MAX_TRACKED_FILES"
proof -
  have h1: "data (FileTracker_init Missing None) ''COVER'' = Some []"
    by (simp add: fresh_tracker_data initial_data_def)
  have h2: "length ([] :: file_info list) \<le> MAX_TRACKED_FILES"
    by simp
  show ?thesis
    using ledger_bound [OF h1 h2, of "map cover_call [''1.jpg'', ''2.jpg'', ''3.jpg'', ''4.jpg'', ''5.jpg'']"]
    by (simp add: recorded_def cover_call_def make_file_info_def MAX_TRACKED_FILES_def Let_def
          always_exists_def)
qed

text \<open>
  Claim C10, as stated, fails: \<open>add_file\<close> tests the task type against the keys of
  \<open>self.data\<close>, and \<open>_load_data\<close> keeps every key of the stored document. A
  tracker loaded from a file that holds the key \<open>SHIP\<close> records a file for \<open>SHIP\<close>,
  which is not one of the five tracked types.
\<close>

theorem add_file_loaded_key_counterexample:
  "''SHIP'' \<notin> set tracked_types
   \<and> data (add_file always_exists None ''SHIP'' ''a.jpg'' None
            (FileTracker_init (Json ship_document) None)) ''SHIP''
       \<noteq> data (FileTracker_init (Json ship_document) None) ''SHIP''"
  by (simp add: tracked_types_def add_file_def FileTracker_init_def load_data_def save_data_def
        initial_data_def MAX_TRACKED_FILES_def always_exists_def ship_document_def)

text \<open>
  Claim C10, amended. A call of \<open>add_file\<close> with a task type that is not a key of the
  tracker's data, or with a path that does not exist, returns the tracker as it was but
  for one warning in its log: every list and the stored file are unchanged. In a tracker
  created without a stored file the keys are the five tracked types
  (\<open>fresh_tracker_data\<close>).
\<close>

theorem add_file_rejected_frame:
  assumes "data s task_type = None \<or> \<not> path_exists file_path"
  shows "\<exists>msg. add_file path_exists write_error task_type file_path metadata s
           = s\<lparr>tracker_log := tracker_log s @ [(WARNING, msg)]\<rparr>"
  using assms by (auto simp: add_file_def split: option.splits)

theorem add_file_rejected_frame_witness:
  "\<exists>msg. add_file always_exists None ''SHIP'' ''a.jpg'' None (FileTracker_init Missing None)
     = (FileTracker_init Missing None)
         \<lparr>tracker_log := tracker_log (FileTracker_init Missing None) @ [(WARNING, msg)]\<rparr>"
proof -
  have h: "data (FileTracker_init Missing None) ''SHIP'' = None \<or> \<not> always_exists ''a.jpg''"
    by (simp add: fresh_tracker_data initial_data_def)
  show ?thesis
    using add_file_rejected_frame
            [where path_exists = always_exists and file_path = "''a.jpg''"
               and task_type = "''SHIP''" and s = "FileTracker_init Missing None", OF h]
    by simp
qed

section \<open>Properties of the status registry\<close>

lemma keys_update_task_status:
  "map fst (task_statuses (update_task_status ty st s)) = map fst (task_statuses s)"
  by (auto simp: update_task_status_def update_keys map_of_eq_None_iff split: option.splits)

lemma known_registry_update [simp]:
  "known_registry (update_task_status ty st s) = known_registry s"
  by (simp add: known_registry_def keys_update_task_status)

lemma known_registry_init: "known_registry (AIControlSystem_init f tr)"
  by (simp add: known_registry_def AIControlSystem_init_def initial_task_statuses_def tracked_types_def)

lemma known_registry_key:
  "known_registry s \<Longrightarrow> (map_of (task_statuses s) t \<noteq> None) = (t \<in> set tracked_types)"
  by (metis known_registry_def map_of_eq_None_iff set_map)

lemma map_of_update_task_status:
  "map_of (task_statuses (update_task_status ty st s)) t =
     (case map_of (task_statuses s) ty of
        None \<Rightarrow> map_of (task_statuses s) t
      | Some info \<Rightarrow>
          if t = ty then Some \<lparr>status = st, index = index info + 1\<rparr>
          else map_of (task_statuses s) t)"
  by (simp add: update_task_status_def update_conv' split: option.splits)

lemma revision_update_same:
  "map_of (task_statuses s) t \<noteq> None \<Longrightarrow>
   revision t (update_task_status t st s) = revision t s + 1"
  by (auto simp: revision_def map_of_update_task_status split: option.splits)

lemma revision_update_other:
  "ty \<noteq> t \<Longrightarrow> revision t (update_task_status ty st s) = revision t s"
  by (auto simp: revision_def map_of_update_task_status split: option.splits)

lemma key_update_task_status:
  "(map_of (task_statuses (update_task_status ty st s)) t = None) = (map_of (task_statuses s) t = None)"
  by (auto simp: map_of_update_task_status split: option.splits)

lemma revisions_seen_sorted:
  "map_of (task_statuses s) t \<noteq> None \<Longrightarrow> sorted_wrt (<) (revision t s # revisions_seen t us s)"
proof (induction us arbitrary: s)
  case Nil
  then show ?case by simp
next
  case (Cons u us)
  obtain ty st where u: "u = (ty, st)" by (cases u)
  let ?s1 = "update_task_status ty st s"
  have k: "map_of (task_statuses ?s1) t \<noteq> None"
    using Cons.prems by (simp add: key_update_task_status)
  have ih: "sorted_wrt (<) (revision t ?s1 # revisions_seen t us ?s1)"
    by (rule Cons.IH [OF k])
  show ?case
  proof (cases "ty = t")
    case True
    have "revision t ?s1 = revision t s + 1"
      using Cons.prems True by (simp add: revision_update_same)
    with ih True u show ?thesis by (auto simp: Let_def)
  next
    case False
    have "revision t ?s1 = revision t s"
      using False by (simp add: revision_update_other)
    with ih False u show ?thesis by (auto simp: Let_def)
  qed
qed

text \<open>
  Claim C6 (revision monotonicity). For each of the five task types: the initial entry
  is \<open>IDLE\<close> with index 0; one call of \<open>update_task_status\<close> for the type adds
  exactly one to its index; and along any sequence of calls, for this and other types,
  the index before the sequence followed by the indices seen after each transition of
  the type is strictly increasing, so it never decreases and never repeats.
\<close>

theorem revision_monotonic:
  assumes "t \<in> set tracked_types" and "known_registry s"
  shows "map_of (task_statuses (AIControlSystem_init f tr)) t = Some \<lparr>status = ''IDLE'', index = 0\<rparr>
         \<and> revision t (update_task_status t st s) = revision t s + 1
         \<and> sorted_wrt (<) (revision t s # revisions_seen t us s)"
proof -
  have k: "map_of (task_statuses s) t \<noteq> None"
    using assms known_registry_key by blast
  have i: "map_of (task_statuses (AIControlSystem_init f tr)) t = Some \<lparr>status = ''IDLE'', index = 0\<rparr>"
    using assms(1) by (auto simp: AIControlSystem_init_def initial_task_statuses_def tracked_types_def)
  show ?thesis
    using i revision_update_same [OF k] revisions_seen_sorted [OF k] by blast
qed

text \<open>
  From the initial state, \<open>CASE\<close> set to \<open>RUNNING\<close>, \<open>BOX\<close> to \<open>RUNNING\<close>, then
  \<open>CASE\<close> to \<open>COMPLETED\<close> and to \<open>RUNNING\<close> again: \<open>CASE\<close> shows 1, 2, 3.
\<close>

theorem revision_monotonic_witness:
  "revision ''CASE'' (AIControlSystem_init NoFile (FileTracker_init Missing None)) = 0
   \<and> revisions_seen ''CASE''
        [(''CASE'', ''RUNNING''), (''BOX'', ''RUNNING''), (''CASE'', ''COMPLETED''), (''CASE'', ''RUNNING'')]
        (AIControlSystem_init NoFile (FileTracker_init Missing None)) = [1, 2, 3]
   \<and> sorted_wrt (<) [0 :: int, 1, 2, 3]"
proof -
  have h1: "''CASE'' \<in> set tracked_types"
    by (simp add: tracked_types_def)
  have h2: "known_registry (AIControlSystem_init NoFile (FileTracker_init Missing None))"
    by (rule known_registry_init)
  show ?thesis
    using revision_monotonic [OF h1 h2,
      of NoFile "FileTracker_init Missing None" "''RUNNING''"
         "[(''CASE'', ''RUNNING''), (''BOX'', ''RUNNING''), (''CASE'', ''COMPLETED''), (''CASE'', ''RUNNING'')]"]
    by (simp add: revision_def update_task_status_def AIControlSystem_init_def
          initial_task_statuses_def Let_def)
qed

section \<open>Frame lemmas: what each operation leaves alone\<close>

lemma frame_log_error [simp]:
  "task_statuses (log_error m s) = task_statuses s"
  "order_data_file (log_error m s) = order_data_file s"
  "file_tracker (log_error m s) = file_tracker s"
  "global_task_lock (log_error m s) = global_task_lock s"
  "is_processing (log_error m s) = is_processing s"
  "events (log_error m s) = events s"
  "logged (log_error m s) = logged s @ [(ERROR, m)]"
  by (simp_all add: log_error_def)

lemma frame_log_warning [simp]:
  "task_statuses (log_warning m s) = task_statuses s"
  "order_data_file (log_warning m s) = order_data_file s"
  "file_tracker (log_warning m s) = file_tracker s"
  "global_task_lock (log_warning m s) = global_task_lock s"
  "is_processing (log_warning m s) = is_processing s"
  "events (log_warning m s) = events s"
  "logged (log_warning m s) = logged s @ [(WARNING, m)]"
  by (simp_all add: log_warning_def)

lemma frame_emit [simp]:
  "task_statuses (emit e s) = task_statuses s"
  "order_data_file (emit e s) = order_data_file s"
  "file_tracker (emit e s) = file_tracker s"
  "global_task_lock (emit e s) = global_task_lock s"
  "is_processing (emit e s) = is_processing s"
  "events (emit e s) = events s @ [e]"
  "logged (emit e s) = logged s"
  by (simp_all add: emit_def)

lemma frame_update_task_status [simp]:
  "order_data_file (update_task_status t st s) = order_data_file s"
  "file_tracker (update_task_status t st s) = file_tracker s"
  "global_task_lock (update_task_status t st s) = global_task_lock s"
  "is_processing (update_task_status t st s) = is_processing s"
  "events (update_task_status t st s) = events s"
  "logged (update_task_status t st s) = logged s"
  by (simp_all add: update_task_status_def split: option.splits)

lemma frame_get_current_order_data [simp]:
  "task_statuses (snd (get_current_order_data s)) = task_statuses s"
  "order_data_file (snd (get_current_order_data s)) = order_data_file s"
  "file_tracker (snd (get_current_order_data s)) = file_tracker s"
  "global_task_lock (snd (get_current_order_data s)) = global_task_lock s"
  "is_processing (snd (get_current_order_data s)) = is_processing s"
  "events (snd (get_current_order_data s)) = events s"
  by (simp_all add: get_current_order_data_def split: order_file.splits)

lemma order_data_update_task_status [simp]:
  "fst (get_current_order_data (update_task_status t st s)) = fst (get_current_order_data s)"
  by (simp add: get_current_order_data_def split: order_file.splits)

lemma frame_upload_file [simp]:
  "task_statuses (snd (upload_file w p t d n s)) = task_statuses s"
  "order_data_file (snd (upload_file w p t d n s)) = order_data_file s"
  "file_tracker (snd (upload_file w p t d n s)) = file_tracker s"
  "global_task_lock (snd (upload_file w p t d n s)) = global_task_lock s"
  "is_processing (snd (upload_file w p t d n s)) = is_processing s"
  "events (snd (upload_file w p t d n s)) = events s @ [UploadFile p t d n]"
  by (simp_all add: upload_file_def Let_def split: sum.splits prod.splits)

lemma frame_track_and_upload [simp]:
  "task_statuses (snd (track_and_upload w t ar s)) = task_statuses s"
  "order_data_file (snd (track_and_upload w t ar s)) = order_data_file s"
  "global_task_lock (snd (track_and_upload w t ar s)) = global_task_lock s"
  "is_processing (snd (track_and_upload w t ar s)) = is_processing s"
  by (simp_all add: track_and_upload_def Let_def split: option.splits)

lemma known_registry_frames [simp]:
  "known_registry (snd (get_current_order_data s)) = known_registry s"
  "known_registry (log_error m s) = known_registry s"
  "known_registry (emit e s) = known_registry s"
  "known_registry (snd (track_and_upload w t ar s)) = known_registry s"
  by (simp_all add: known_registry_def)

lemma lock_insensitive [simp]:
  "fst (get_current_order_data (s\<lparr>global_task_lock := b\<rparr>)) = fst (get_current_order_data s)"
  "fst (get_current_order_data (s\<lparr>is_processing := b\<rparr>)) = fst (get_current_order_data s)"
  "known_registry (s\<lparr>global_task_lock := b\<rparr>) = known_registry s"
  "known_registry (s\<lparr>is_processing := b\<rparr>) = known_registry s"
  "unknown_result t (s\<lparr>global_task_lock := b\<rparr>) = unknown_result t s"
  "unknown_result t (s\<lparr>is_processing := b\<rparr>) = unknown_result t s"
  by (simp_all add: get_current_order_data_def known_registry_def unknown_result_def
        split: order_file.splits)

lemma frame_send_result [simp]:
  "task_statuses (snd (send_result_to_node_red w r s)) = task_statuses s"
  "file_tracker (snd (send_result_to_node_red w r s)) = file_tracker s"
  "order_data_file (snd (send_result_to_node_red w r s)) = order_data_file s"
  "events (snd (send_result_to_node_red w r s)) = events s @ [NodeRedPost r]"
  by (simp_all add: send_result_to_node_red_def Let_def split: option.splits exn.splits)

lemma send_result_outcome:
  "fst (send_result_to_node_red w r s) = (case nodered_response w of None \<Rightarrow> Inr () | Some e \<Rightarrow> Inl e)"
  by (simp add: send_result_to_node_red_def Let_def split: option.splits exn.splits)

lemma task_statuses_update_cong:
  "task_statuses s1 = task_statuses s2 \<Longrightarrow>
   task_statuses (update_task_status t st s1) = task_statuses (update_task_status t st s2)"
  by (simp add: update_task_status_def split: option.splits)

lemma update_absent:
  "map_of (task_statuses s) t = None \<Longrightarrow> update_task_status t st s = s"
  by (simp add: update_task_status_def)

lemma absent_key:
  "known_registry s \<Longrightarrow> t \<notin> set tracked_types \<Longrightarrow> map_of (task_statuses s) t = None"
  using known_registry_key [of s t] by blast

lemma lock_insensitive_registry [simp]:
  "revision t (s\<lparr>global_task_lock := b\<rparr>) = revision t s"
  "revision t (s\<lparr>is_processing := b\<rparr>) = revision t s"
  by (simp_all add: revision_def)

section \<open>Properties of the order context\<close>

lemma find_missing:
  "\<exists>field \<in> set fs. message_data field = None \<Longrightarrow>
   \<exists>field \<in> set fs. find (\<lambda>field. message_data field = None) fs = Some field
      \<and> message_data field = None"
  by (induction fs) auto

lemma get_current_order_data_logged [simp]:
  "fst (get_current_order_data (log_error msg s)) = fst (get_current_order_data s)"
  by (simp add: get_current_order_data_def log_error_def split: order_file.splits)

text \<open>
  Claim C4 (order-context update on validation failure). Where a message lacks one of
  the required fields \<open>ORDER_NO\<close>, \<open>ITEM_CD\<close>, \<open>ITEM_NM\<close>, \<open>ITEM_CLASS\<close>,
  \<open>BOM\<close>, \<open>RECIPE\<close>, \<open>process_web_message\<close> raises \<open>ValueError\<close> for a
  missing field, and the state it leaves is the one it found but for the logged error:
  the order data file is not written, and \<open>get_current_order_data\<close>, through which
  every task dispatch reads the context, returns what it returned before.
\<close>

theorem malformed_order_context_discarded:
  assumes "\<exists>field \<in> set required_fields. message_data field = None"
  shows "\<exists>field \<in> set required_fields.
           message_data field = None
           \<and> process_web_message open_error message_data s
               = (Inl (ValueError (''Missing required field: '' @ field)),
                  log_error (''Error processing web message: Missing required field: '' @ field) s)
           \<and> order_data_file (snd (process_web_message open_error message_data s)) = order_data_file s
           \<and> fst (get_current_order_data (snd (process_web_message open_error message_data s)))
               = fst (get_current_order_data s)"
proof -
  obtain field where f: "field \<in> set required_fields" "message_data field = None"
      "find (\<lambda>field. message_data field = None) required_fields = Some field"
    using find_missing [OF assms] by blast
  have eq: "process_web_message open_error message_data s
          = (Inl (ValueError (''Missing required field: '' @ field)),
             log_error (''Error processing web message: Missing required field: '' @ field) s)"
    using f(3) by (simp add: process_web_message_def web_message_body_def)
  have o: "order_data_file (snd (process_web_message open_error message_data s)) = order_data_file s"
    unfolding eq by (simp add: log_error_def)
  have g: "fst (get_current_order_data (snd (process_web_message open_error message_data s)))
             = fst (get_current_order_data s)"
    unfolding eq by simp
  show ?thesis
    using f(1,2) eq o g by blast
qed

text \<open>
  The scenario of the specification: an update without \<open>BOM\<close> is refused and the
  stored order \<open>A-1\<close> is still the one read.
\<close>

theorem malformed_order_context_discarded_witness:
  "fst (process_web_message None order_without_bom system_with_order)
     = Inl (ValueError ''Missing required field: BOM'')
   \<and> order_data_file (snd (process_web_message None order_without_bom system_with_order))
       = OrderJson prior_order
   \<and> fst (get_current_order_data (snd (process_web_message None order_without_bom system_with_order)))
       = prior_order"
proof -
  have h: "\<exists>field \<in> set required_fields. order_without_bom field = None"
    by (simp add: required_fields_def order_without_bom_def)
  have o: "order_data_file system_with_order = OrderJson prior_order"
    by (simp add: system_with_order_def AIControlSystem_init_def)
  have g: "fst (get_current_order_data system_with_order) = prior_order"
    by (simp add: get_current_order_data_def o)
  have u: "field \<in> set required_fields \<Longrightarrow> order_without_bom field = None \<Longrightarrow> field = ''BOM''" for field
    by (auto simp: required_fields_def order_without_bom_def)
  show ?thesis
    using malformed_order_context_discarded [OF h, of None system_with_order] u
    by (auto simp: o g)
qed

section \<open>Properties of task processing\<close>

lemmas example_defs =
  example_world_def analyzer_returning_def returning_def case_request_def ship_request_def
  initial_system_def AIControlSystem_init_def initial_task_statuses_def always_exists_def
  ok_outcome_def ng_outcome_def get_START_def

lemma case_known: "get_START case_request \<in> set tracked_types"
  by (simp add: get_START_def case_request_def tracked_types_def)

lemma initial_known: "known_registry initial_system"
  by (simp add: initial_system_def known_registry_init)

lemma case_method:
  "analysis_method_for (TaskAnalyzer (example_world r sink)) ''CASE'' td = Inr r"
  by (simp add: analysis_method_for_def task_analysis_map_def example_defs)


lemma result_ok:
  "RESULT (fst (process_task_analysis (example_world ok_outcome sink) case_request s)) = ''OK''"
  by (simp add: process_task_analysis_def task_analysis_body_def track_and_upload_def
        case_method Let_def case_prod_unfold get_str_def get_START_def case_request_def ok_outcome_def)

lemma initial_revision: "map_of (task_statuses initial_system) ''CASE'' = Some \<lparr>status = ''IDLE'', index = 0\<rparr>"
  by (simp add: initial_system_def AIControlSystem_init_def initial_task_statuses_def)

lemma initial_keys: "map fst (task_statuses initial_system) = tracked_types"
  using initial_known by (simp add: known_registry_def)

text \<open>What one iteration of the worker leaves behind, field by field.\<close>

lemma worker_iteration_fields:
  assumes "\<not> global_task_lock s"
    and p_def: "p = process_task_analysis w req (s\<lparr>global_task_lock := True, is_processing := True\<rparr>)"
  shows "\<exists>s'. worker_iteration w req s = Some s'
           \<and> task_statuses s'
               = (case nodered_response w of
                    None \<Rightarrow> task_statuses (snd p)
                  | Some e \<Rightarrow> task_statuses (update_task_status (get_START req) ''ERROR'' (snd p)))
           \<and> \<not> global_task_lock s' \<and> \<not> is_processing s'
           \<and> events s' = events (snd p) @ [NodeRedPost (fst p)]
           \<and> file_tracker s' = file_tracker (snd p)
           \<and> (\<forall>e. nodered_response w = Some e \<longrightarrow>
                 (ERROR, ''Error in global worker processing '' @ get_START req @ '': '' @ str_exn e)
                   \<in> set (logged s'))"
proof -
  let ?sent = "send_result_to_node_red w (fst p) (snd p)"
  let ?s5 = "(snd ?sent)\<lparr>global_task_lock := False\<rparr>"
  let ?msg = "\<lambda>e. ''Error in global worker processing '' @ get_START req @ '': '' @ str_exn e"
  let ?s6 = "case fst ?sent of Inr _ \<Rightarrow> ?s5
             | Inl e \<Rightarrow> update_task_status (get_START req) ''ERROR'' (log_error (?msg e) ?s5)"
  have w: "worker_iteration w req s = Some (?s6\<lparr>is_processing := False\<rparr>)"
    using assms(1) unfolding p_def
    by (simp add: worker_iteration_def Let_def case_prod_unfold split: sum.splits)
  show ?thesis
  proof (cases "nodered_response w")
    case None
    then have "?s6 = ?s5" by (simp add: send_result_outcome)
    then show ?thesis using w None by simp
  next
    case (Some e)
    then have s6: "?s6 = update_task_status (get_START req) ''ERROR'' (log_error (?msg e) ?s5)"
      by (simp add: send_result_outcome)
    have "task_statuses (log_error (?msg e) ?s5) = task_statuses (snd p)"
      by simp
    then have "task_statuses ?s6
                 = task_statuses (update_task_status (get_START req) ''ERROR'' (snd p))"
      unfolding s6 by (rule task_statuses_update_cong)
    then show ?thesis using w Some s6 by simp
  qed
qed

subsection \<open>Unknown task types\<close>

lemma update_unknown:
  "known_registry s \<Longrightarrow> t \<notin> set tracked_types \<Longrightarrow> update_task_status t st s = s"
  using known_registry_key [of s t] by (auto simp: update_task_status_def split: option.splits)

lemma method_unknown:
  "t \<notin> set tracked_types \<Longrightarrow> analysis_method_for ta t = unknown_task"
  by (simp add: analysis_method_for_def task_analysis_map_def tracked_types_def)

lemma track_unknown:
  "track_and_upload w t [''status'' \<mapsto> ''ERROR'', ''details'' \<mapsto> ''Unknown task''] s = (Inr (), s)"
  by (simp add: track_and_upload_def)

lemma process_unknown:
  assumes "known_registry s" and "get_START req \<notin> set tracked_types"
  shows "process_task_analysis w req s
           = (unknown_result (get_START req) s, snd (get_current_order_data s))"
  using assms
  by (simp add: process_task_analysis_def task_analysis_body_def update_unknown method_unknown
        unknown_task_def track_unknown unknown_result_def get_str_def Let_def case_prod_unfold)

text \<open>
  Claim C5, as stated, fails in its status part: \<open>update_task_status\<close> does nothing
  for a task type outside \<open>self.task_statuses\<close>. A request for \<open>SHIP\<close> in the
  initial state ends with the result \<open>ERROR\<close>, and the status table is the initial one:
  no entry for \<open>SHIP\<close>, no \<open>RUNNING\<close> and no \<open>ERROR\<close> transition anywhere.
\<close>

theorem unknown_task_status_counterexample:
  "RESULT (fst (process_task_analysis (example_world ok_outcome None) ship_request initial_system))
     = ''ERROR''
   \<and> status_of ''SHIP''
        (snd (process_task_analysis (example_world ok_outcome None) ship_request initial_system)) = None
   \<and> task_statuses
        (snd (process_task_analysis (example_world ok_outcome None) ship_request initial_system))
       = initial_task_statuses"
proof -
  have n: "get_START ship_request = ''SHIP''"
    by (simp add: get_START_def ship_request_def)
  have h1: "get_START ship_request \<notin> set tracked_types"
    by (simp add: n tracked_types_def)
  have i: "task_statuses initial_system = initial_task_statuses"
    by (simp add: initial_system_def AIControlSystem_init_def)
  have p: "process_task_analysis (example_world ok_outcome None) ship_request initial_system
             = (unknown_result ''SHIP'' initial_system, snd (get_current_order_data initial_system))"
    using process_unknown [OF initial_known h1] by (simp add: n)
  show ?thesis
    by (simp add: p unknown_result_def status_of_def i initial_task_statuses_def)
qed

text \<open>
  Claim C5, amended. For a request whose \<open>START\<close> is none of the five known task
  types (or is absent), \<open>process_task_analysis\<close> returns, without raising, the result
  \<open>unknown_result\<close>: \<open>RESULT\<close> is \<open>ERROR\<close>, \<open>DETAILS\<close> is \<open>Unknown task\<close>,
  \<open>CONFIDENCE\<close> is \<open>0%\<close>. The status table is left as it was, both calls of
  \<open>update_task_status\<close> being without effect. An iteration of the worker on such a
  request completes, posts exactly this result to Node-RED, and leaves the status table
  unchanged, whether the post succeeds or not.
\<close>

theorem unknown_task_resolves_to_error:
  assumes "get_START req \<notin> set tracked_types" and "known_registry s" and "\<not> global_task_lock s"
  shows "process_task_analysis w req s
           = (unknown_result (get_START req) s, snd (get_current_order_data s))
         \<and> task_statuses (snd (process_task_analysis w req s)) = task_statuses s
         \<and> (\<exists>s'. worker_iteration w req s = Some s'
                \<and> task_statuses s' = task_statuses s
                \<and> events s' = events s @ [NodeRedPost (unknown_result (get_START req) s)])"
proof -
  let ?s2 = "s\<lparr>global_task_lock := True, is_processing := True\<rparr>"
  have p: "process_task_analysis w req s
             = (unknown_result (get_START req) s, snd (get_current_order_data s))"
    using assms(1,2) by (simp add: process_unknown)
  have p2: "process_task_analysis w req ?s2
             = (unknown_result (get_START req) s, snd (get_current_order_data ?s2))"
    using assms(1,2) by (simp add: process_unknown)
  have a: "map_of (task_statuses (snd (get_current_order_data ?s2))) (get_START req) = None"
    using absent_key [OF assms(2,1)] by simp
  obtain s' where w: "worker_iteration w req s = Some s'"
      and ts: "task_statuses s'
               = (case nodered_response w of
                    None \<Rightarrow> task_statuses (snd (process_task_analysis w req ?s2))
                  | Some e \<Rightarrow> task_statuses (update_task_status (get_START req) ''ERROR''
                                               (snd (process_task_analysis w req ?s2))))"
      and ev: "events s' = events (snd (process_task_analysis w req ?s2))
                 @ [NodeRedPost (fst (process_task_analysis w req ?s2))]"
    using worker_iteration_fields [OF assms(3) refl, of w req] by blast
  have "task_statuses s' = task_statuses s"
    unfolding ts p2 using a by (simp add: update_absent split: option.splits)
  moreover have "events s' = events s @ [NodeRedPost (unknown_result (get_START req) s)]"
    unfolding ev p2 by simp
  ultimately show ?thesis
    using p w by simp
qed

text \<open>The request for \<open>SHIP\<close> in the initial state.\<close>

theorem unknown_task_resolves_to_error_witness:
  "fst (process_task_analysis (example_world ok_outcome None) ship_request initial_system)
     = \<lparr>NAME = ''SHIP'', RESULT = ''ERROR'', ORDER_NO = PStr ''UNKNOWN'', CONFIDENCE = ''0%'',
        DETAILS = ''Unknown task''\<rparr>
   \<and> (\<exists>s'. worker_iteration (example_world ok_outcome None) ship_request initial_system = Some s'
          \<and> task_statuses s' = initial_task_statuses
          \<and> events s' = [NodeRedPost \<lparr>NAME = ''SHIP'', RESULT = ''ERROR'', ORDER_NO = PStr ''UNKNOWN'',
                                       CONFIDENCE = ''0%'', DETAILS = ''Unknown task''\<rparr>])"
proof -
  have n: "get_START ship_request = ''SHIP''"
    by (simp add: get_START_def ship_request_def)
  have h1: "get_START ship_request \<notin> set tracked_types"
    by (simp add: n tracked_types_def)
  have h3: "\<not> global_task_lock initial_system"
    by (simp add: initial_system_def AIControlSystem_init_def)
  have i: "events initial_system = []" "task_statuses initial_system = initial_task_statuses"
    by (simp_all add: initial_system_def AIControlSystem_init_def)
  have r: "unknown_result ''SHIP'' initial_system
             = \<lparr>NAME = ''SHIP'', RESULT = ''ERROR'', ORDER_NO = PStr ''UNKNOWN'', CONFIDENCE = ''0%'',
                DETAILS = ''Unknown task''\<rparr>"
    by (simp add: unknown_result_def get_current_order_data_def initial_system_def
          AIControlSystem_init_def)
  show ?thesis
    using unknown_task_resolves_to_error [OF h1 initial_known h3, of "example_world ok_outcome None"]
    by (simp add: n i r)
qed

subsection \<open>The result and the terminal status\<close>

lemma body_registry:
  assumes "map_of (task_statuses s) t = Some info"
  shows "case fst (task_analysis_body w req t s) of
           Inl e \<Rightarrow> map_of (task_statuses (snd (task_analysis_body w req t s))) t
                      = Some \<lparr>status = ''RUNNING'', index = index info + 1\<rparr>
         | Inr r \<Rightarrow> map_of (task_statuses (snd (task_analysis_body w req t s))) t
                      = Some \<lparr>status = (if RESULT r = ''OK'' then ''COMPLETED'' else ''ERROR''),
                              index = index info + 2\<rparr>"
  using assms
  by (simp add: task_analysis_body_def Let_def case_prod_unfold map_of_update_task_status
        split: sum.splits)

lemma process_registry:
  assumes "map_of (task_statuses s) (get_START req) = Some info"
  shows "map_of (task_statuses (snd (process_task_analysis w req s))) (get_START req)
           = Some \<lparr>status = (if RESULT (fst (process_task_analysis w req s)) = ''OK''
                             then ''COMPLETED'' else ''ERROR''),
                   index = index info + 2\<rparr>"
  using body_registry [OF assms, where w = w and req = req]
  by (simp add: process_task_analysis_def Let_def case_prod_unfold map_of_update_task_status
        split: sum.splits)





lemma analysis_outcome_lock [simp]:
  "analysis_outcome w req (s\<lparr>global_task_lock := b\<rparr>) = analysis_outcome w req s"
  "analysis_outcome w req (s\<lparr>is_processing := b\<rparr>) = analysis_outcome w req s"
  by (simp_all add: analysis_outcome_def)





subsection \<open>Artifacts: recording and upload\<close>

lemma track_fields:
  assumes "ar ''saved_file_path'' = Some p" and "p \<noteq> []"
  shows "file_tracker (snd (track_and_upload w t ar s))
           = add_file (os_path_exists w) (tracker_write_error w) t p (Some (file_metadata w ar))
               (file_tracker s)"
    and "events (snd (track_and_upload w t ar s))
           = events s @ (if ar ''status'' = Some ''NG'' \<and> ar ''details'' \<noteq> None
                         then [UploadFile p t (get_str ar ''details'' []) ''UNKNOWN''] else [])"
  using assms
  by (auto simp: track_and_upload_def Let_def get_str_def split: option.splits)

lemma body_tracker_events:
  assumes "analysis_method_for (TaskAnalyzer w) t
             \<lparr>order_data = fst (get_current_order_data s), task_request = req\<rparr> = Inr ar"
  shows "file_tracker (snd (task_analysis_body w req t s))
           = file_tracker (snd (track_and_upload w t ar
               (snd (get_current_order_data (update_task_status t ''RUNNING'' s)))))"
    and "events (snd (task_analysis_body w req t s))
           = events (snd (track_and_upload w t ar
               (snd (get_current_order_data (update_task_status t ''RUNNING'' s)))))"
  using assms
  by (simp_all add: task_analysis_body_def Let_def case_prod_unfold split: sum.splits)

lemma process_tracker_events:
  "file_tracker (snd (process_task_analysis w req s))
     = file_tracker (snd (task_analysis_body w req (get_START req) s))"
  "events (snd (process_task_analysis w req s))
     = events (snd (task_analysis_body w req (get_START req) s))"
  by (simp_all add: process_task_analysis_def Let_def case_prod_unfold split: sum.splits)

lemma data_add_file_recorded:
  "path_exists p \<Longrightarrow> data tr t = Some old \<Longrightarrow>
   data (add_file path_exists wr t p md tr) t
     = Some (take MAX_TRACKED_FILES (make_file_info t p md # old))"
  by (simp add: add_file_def data_save_data)

lemma tracks_all_init: "tracks_all (FileTracker_init on_disk wr)"
  by (cases on_disk)
     (simp_all add: tracks_all_def FileTracker_init_def load_data_def data_save_data
        initial_data_def tracked_types_def)

lemma tracks_all_add_file:
  "tracks_all (add_file pe wr t p md tr) = tracks_all tr"
  by (auto simp: tracks_all_def add_file_def data_save_data list_all_iff split: option.splits)

lemma artifact_type_known:
  assumes "analysis_outcome w req s = Inr ar" and "carries_artifact ar"
  shows "get_START req \<in> set tracked_types"
proof (rule ccontr)
  assume "get_START req \<notin> set tracked_types"
  then have "analysis_outcome w req s = Inr [''status'' \<mapsto> ''ERROR'', ''details'' \<mapsto> ''Unknown task'']"
    by (simp add: analysis_outcome_def method_unknown unknown_task_def)
  with assms show False
    by (auto simp: carries_artifact_def)
qed

lemma data_add_file:
  "data (add_file pe wr t p md tr) t
     = (case data tr t of
          None \<Rightarrow> None
        | Some old \<Rightarrow> Some (if pe p then take MAX_TRACKED_FILES (make_file_info t p md # old) else old))"
  by (simp add: add_file_def data_save_data split: option.splits)

lemma process_artifact_exact:
  assumes "analysis_outcome w req s = Inr ar"
      and "ar ''saved_file_path'' = Some p" and "p \<noteq> []"
  shows "file_tracker (snd (process_task_analysis w req s))
           = add_file (os_path_exists w) (tracker_write_error w) (get_START req) p
               (Some (file_metadata w ar)) (file_tracker s)
         \<and> data (file_tracker (snd (process_task_analysis w req s))) (get_START req)
             = (case data (file_tracker s) (get_START req) of
                  None \<Rightarrow> None
                | Some old \<Rightarrow>
                    Some (if os_path_exists w p
                          then take MAX_TRACKED_FILES
                                 (make_file_info (get_START req) p (Some (file_metadata w ar)) # old)
                          else old))
         \<and> (tracks_all (file_tracker s) \<longrightarrow> data (file_tracker s) (get_START req) \<noteq> None)
         \<and> events (snd (process_task_analysis w req s))
             = events s @ (if ar ''status'' = Some ''NG'' \<and> ar ''details'' \<noteq> None
                           then [UploadFile p (get_START req) (get_str ar ''details'' []) ''UNKNOWN'']
                           else [])"
proof -
  have m: "analysis_method_for (TaskAnalyzer w) (get_START req)
             \<lparr>order_data = fst (get_current_order_data s), task_request = req\<rparr> = Inr ar"
    using assms(1) by (simp add: analysis_outcome_def)
  have f: "file_tracker (snd (process_task_analysis w req s))
             = add_file (os_path_exists w) (tracker_write_error w) (get_START req) p
                 (Some (file_metadata w ar)) (file_tracker s)"
    by (simp add: process_tracker_events body_tracker_events [OF m]
          track_fields [where ar = ar and p = p, OF assms(2,3)])
  have e: "events (snd (process_task_analysis w req s))
             = events s @ (if ar ''status'' = Some ''NG'' \<and> ar ''details'' \<noteq> None
                           then [UploadFile p (get_START req) (get_str ar ''details'' []) ''UNKNOWN'']
                           else [])"
    by (simp add: process_tracker_events body_tracker_events [OF m]
          track_fields [where ar = ar and p = p, OF assms(2,3)])
  have c: "carries_artifact ar"
    using assms(2,3) by (simp add: carries_artifact_def)
  have k: "data (file_tracker s) (get_START req) \<noteq> None" if "tracks_all (file_tracker s)"
    using that artifact_type_known [OF assms(1) c] by (auto simp: tracks_all_def list_all_iff)
  show ?thesis
    unfolding f using e k by (simp add: data_add_file)
qed

text \<open>
  Claim C9, as stated, fails. \<open>add_file\<close> rejects a path that is not on disk, so an
  \<open>NG\<close> outcome whose saved file is missing is handed to \<open>upload_file\<close> without
  being recorded; and the details of an \<open>NG\<close> outcome are read with
  \<open>analysis_result["details"]\<close>, so an \<open>NG\<close> outcome without details is recorded
  and \<open>upload_file\<close> is never called for it.
\<close>

theorem artifact_escalation_counterexample:
  "ng_outcome ''status'' = Some ''NG''
   \<and> data (file_tracker (snd (process_task_analysis world_without_file case_request initial_system)))
       ''CASE'' = Some []
   \<and> events (snd (process_task_analysis world_without_file case_request initial_system))
       = [UploadFile ''./saved_frames/ng.jpg'' ''CASE'' ''Q002'' ''UNKNOWN'']
   \<and> ng_without_details ''status'' = Some ''NG''
   \<and> map fi_path (the (data (file_tracker
        (snd (process_task_analysis (example_world ng_without_details None) case_request
                initial_system))) ''CASE''))
       = [''./saved_frames/ng.jpg'']
   \<and> events (snd (process_task_analysis (example_world ng_without_details None) case_request
                     initial_system)) = []"
proof -
  have n: "get_START case_request = ''CASE''"
    by (simp add: get_START_def case_request_def)
  have m1: "analysis_outcome world_without_file case_request initial_system = Inr ng_outcome"
    by (simp add: analysis_outcome_def n analysis_method_for_def task_analysis_map_def
          world_without_file_def example_world_def analyzer_returning_def returning_def)
  have m2: "analysis_outcome (example_world ng_without_details None) case_request initial_system
              = Inr ng_without_details"
    by (simp add: analysis_outcome_def n case_method)
  have p1: "ng_outcome ''saved_file_path'' = Some ''./saved_frames/ng.jpg''"
      "''./saved_frames/ng.jpg'' \<noteq> []"
    by (simp_all add: ng_outcome_def)
  have p2: "ng_without_details ''saved_file_path'' = Some ''./saved_frames/ng.jpg''"
      "''./saved_frames/ng.jpg'' \<noteq> []"
    by (simp_all add: ng_without_details_def)
  have i: "events initial_system = []" "data (file_tracker initial_system) ''CASE'' = Some []"
    by (simp_all add: initial_system_def AIControlSystem_init_def fresh_tracker_data initial_data_def)
  have x: "\<not> os_path_exists world_without_file q" "os_path_exists (example_world r None) q" for r q
    by (simp_all add: world_without_file_def example_world_def always_exists_def never_exists_def)
  have v: "ng_outcome ''status'' = Some ''NG''" "ng_outcome ''details'' = Some ''Q002''"
      "get_str ng_outcome ''details'' [] = ''Q002''"
      "ng_without_details ''status'' = Some ''NG''" "ng_without_details ''details'' = None"
    by (simp_all add: ng_outcome_def ng_without_details_def get_str_def)
  show ?thesis
    using process_artifact_exact
            [where ar = ng_outcome and p = "''./saved_frames/ng.jpg''", OF m1 p1, THEN conjunct2]
      process_artifact_exact
            [where ar = ng_without_details and p = "''./saved_frames/ng.jpg''", OF m2 p2,
             THEN conjunct2]
    by (simp add: n i x v make_file_info_def MAX_TRACKED_FILES_def Let_def)
qed

text \<open>
  Claim C9, amended. Let the analysis method of a task return an outcome with a
  non-empty \<open>saved_file_path\<close>. Whatever the status, \<open>process_task_analysis\<close> leaves
  the tracker as \<open>add_file\<close> makes it for that path and the metadata of the outcome:
  the record heads the list of the task type, cut to four, exactly when the file exists
  on disk, and the list is unchanged otherwise; the task type of such an outcome is one
  of the five, for which every tracker holds a list. The calls of \<open>upload_file\<close> it
  makes are exactly one, for that path and the details of the outcome, where the status
  is \<open>NG\<close> and the outcome has details, and none otherwise: an \<open>OK\<close> artifact is
  never uploaded.
\<close>

theorem ng_only_escalation:
  assumes "analysis_outcome w req s = Inr ar"
      and "ar ''saved_file_path'' = Some p" and "p \<noteq> []"
  shows "file_tracker (snd (process_task_analysis w req s))
           = add_file (os_path_exists w) (tracker_write_error w) (get_START req) p
               (Some (file_metadata w ar)) (file_tracker s)
         \<and> data (file_tracker (snd (process_task_analysis w req s))) (get_START req)
             = (case data (file_tracker s) (get_START req) of
                  None \<Rightarrow> None
                | Some old \<Rightarrow>
                    Some (if os_path_exists w p
                          then take MAX_TRACKED_FILES
                                 (make_file_info (get_START req) p (Some (file_metadata w ar)) # old)
                          else old))
         \<and> (tracks_all (file_tracker s) \<longrightarrow> data (file_tracker s) (get_START req) \<noteq> None)
         \<and> events (snd (process_task_analysis w req s))
             = events s @ (if ar ''status'' = Some ''NG'' \<and> ar ''details'' \<noteq> None
                           then [UploadFile p (get_START req) (get_str ar ''details'' []) ''UNKNOWN'']
                           else [])"
  using process_artifact_exact [where ar = ar and p = p, OF assms] .

text \<open>An \<open>NG\<close> artifact is recorded and uploaded, an \<open>OK\<close> artifact only recorded.\<close>

theorem ng_only_escalation_witness:
  "events (snd (process_task_analysis (example_world ng_outcome None) case_request initial_system))
     = [UploadFile ''./saved_frames/ng.jpg'' ''CASE'' ''Q002'' ''UNKNOWN'']
   \<and> map fi_path (the (data (file_tracker
        (snd (process_task_analysis (example_world ng_outcome None) case_request initial_system))) ''CASE''))
       = [''./saved_frames/ng.jpg'']
   \<and> events (snd (process_task_analysis (example_world ok_outcome None) case_request initial_system))
       = []
   \<and> map fi_path (the (data (file_tracker
        (snd (process_task_analysis (example_world ok_outcome None) case_request initial_system))) ''CASE''))
       = [''./saved_frames/ok.jpg'']"
proof -
  have n: "get_START case_request = ''CASE''"
    by (simp add: get_START_def case_request_def)
  have m: "analysis_outcome (example_world r None) case_request initial_system = Inr r" for r
    by (simp add: analysis_outcome_def n case_method)
  have ng: "ng_outcome ''saved_file_path'' = Some ''./saved_frames/ng.jpg''"
      "''./saved_frames/ng.jpg'' \<noteq> []"
    by (simp_all add: ng_outcome_def)
  have ok: "ok_outcome ''saved_file_path'' = Some ''./saved_frames/ok.jpg''"
      "''./saved_frames/ok.jpg'' \<noteq> []"
    by (simp_all add: ok_outcome_def)
  have i: "events initial_system = []" "data (file_tracker initial_system) ''CASE'' = Some []"
    by (simp_all add: initial_system_def AIControlSystem_init_def fresh_tracker_data initial_data_def)
  have x: "os_path_exists (example_world r None) q" for r q
    by (simp add: example_world_def always_exists_def)
  have v: "ng_outcome ''status'' = Some ''NG''" "ng_outcome ''details'' = Some ''Q002''"
      "get_str ng_outcome ''details'' [] = ''Q002''"
      "ok_outcome ''status'' \<noteq> Some ''NG''"
    by (simp_all add: ng_outcome_def ok_outcome_def get_str_def)
  show ?thesis
    using ng_only_escalation
            [where ar = ng_outcome and p = "''./saved_frames/ng.jpg''", OF m ng, THEN conjunct2]
      ng_only_escalation
            [where ar = ok_outcome and p = "''./saved_frames/ok.jpg''", OF m ok, THEN conjunct2]
    by (simp add: n i x v make_file_info_def MAX_TRACKED_FILES_def Let_def)
qed

section \<open>Failure of the result delivery\<close>

text \<open>
  Claim C3, amended. Where \<open>send_result_to_node_red\<close> raises, the iteration of the
  worker still completes; the exception is logged; the status table is the one left by
  \<open>process_task_analysis\<close> with \<open>update_task_status(task_type, "ERROR")\<close> applied
  to it, so a known task type ends in \<open>ERROR\<close> with its index three above the one
  before the task; and \<open>global_task_lock\<close> is released.
\<close>

theorem sink_failure_forces_error:
  assumes "\<not> global_task_lock s" and "nodered_response w = Some e"
  shows "\<exists>s'. worker_iteration w req s = Some s'
           \<and> task_statuses s'
               = task_statuses (update_task_status (get_START req) ''ERROR''
                   (snd (process_task_analysis w req
                           (s\<lparr>global_task_lock := True, is_processing := True\<rparr>))))
           \<and> \<not> global_task_lock s'
           \<and> (ERROR, ''Error in global worker processing '' @ get_START req @ '': '' @ str_exn e)
                \<in> set (logged s')
           \<and> (get_START req \<in> set tracked_types \<and> known_registry s \<longrightarrow>
                 status_of (get_START req) s' = Some ''ERROR''
                 \<and> revision (get_START req) s' = revision (get_START req) s + 3)"
proof -
  let ?s2 = "s\<lparr>global_task_lock := True, is_processing := True\<rparr>"
  let ?p = "process_task_analysis w req ?s2"
  obtain s' where w: "worker_iteration w req s = Some s'"
      and ts: "task_statuses s'
                 = task_statuses (update_task_status (get_START req) ''ERROR'' (snd ?p))"
      and lk: "\<not> global_task_lock s'"
      and lg: "(ERROR, ''Error in global worker processing '' @ get_START req @ '': '' @ str_exn e)
                 \<in> set (logged s')"
    using worker_iteration_fields [OF assms(1) refl, of w req] assms(2) by auto
  have "status_of (get_START req) s' = Some ''ERROR''
        \<and> revision (get_START req) s' = revision (get_START req) s + 3"
    if a: "get_START req \<in> set tracked_types" "known_registry s"
  proof -
    obtain info where k: "map_of (task_statuses s) (get_START req) = Some info"
      using a known_registry_key by blast
    then have k2: "map_of (task_statuses ?s2) (get_START req) = Some info"
      by simp
    show ?thesis
      using k by (simp add: status_of_def revision_def ts map_of_update_task_status
            process_registry [OF k2])
  qed
  then show ?thesis
    using w ts lk lg by blast
qed

text \<open>The \<open>CASE\<close> task analysed \<open>OK\<close> whose post is refused.\<close>

theorem sink_failure_forces_error_witness:
  "\<exists>s'. worker_iteration (example_world ok_outcome (Some (RequestException ''refused'')))
          case_request initial_system = Some s'
     \<and> \<not> global_task_lock s'
     \<and> status_of ''CASE'' s' = Some ''ERROR''
     \<and> revision ''CASE'' s' = 3"
proof -
  have h1: "\<not> global_task_lock initial_system"
    by (simp add: initial_system_def AIControlSystem_init_def)
  have h2: "nodered_response (example_world ok_outcome (Some (RequestException ''refused'')))
              = Some (RequestException ''refused'')"
    by (simp add: example_world_def)
  have n: "get_START case_request = ''CASE''"
    by (simp add: get_START_def case_request_def)
  have r: "revision ''CASE'' initial_system = 0"
    by (simp add: revision_def initial_revision)
  show ?thesis
    using sink_failure_forces_error [OF h1 h2, of case_request] case_known initial_known
    by (auto simp: n r)
qed

text \<open>
  Claim C3, as stated, fails in its status part: the handler of the worker loop calls
  \<open>update_task_status(task_type, "ERROR")\<close> for every exception, the one raised by
  \<open>send_result_to_node_red\<close> included. A \<open>CASE\<close> task analysed \<open>OK\<close> stands at
  \<open>COMPLETED\<close> when the result is handed over; where the post fails the iteration
  ends with \<open>ERROR\<close>, where it succeeds with \<open>COMPLETED\<close>.
\<close>

theorem sink_failure_counterexample:
  "status_of ''CASE''
     (snd (process_task_analysis (example_world ok_outcome (Some (RequestException ''refused'')))
             case_request (initial_system\<lparr>global_task_lock := True, is_processing := True\<rparr>)))
     = Some ''COMPLETED''
   \<and> map_option (status_of ''CASE'')
        (worker_iteration (example_world ok_outcome (Some (RequestException ''refused'')))
           case_request initial_system)
       = Some (Some ''ERROR'')
   \<and> map_option (status_of ''CASE'')
        (worker_iteration (example_world ok_outcome None) case_request initial_system)
       = Some (Some ''COMPLETED'')"
proof -
  let ?bad = "example_world ok_outcome (Some (RequestException ''refused''))"
  let ?good = "example_world ok_outcome None"
  let ?s2 = "initial_system\<lparr>global_task_lock := True, is_processing := True\<rparr>"
  have n: "get_START case_request = ''CASE''"
    by (simp add: get_START_def case_request_def)
  have h1: "\<not> global_task_lock initial_system"
    by (simp add: initial_system_def AIControlSystem_init_def)
  have k: "map_of (task_statuses ?s2) (get_START case_request) = Some \<lparr>status = ''IDLE'', index = 0\<rparr>"
    by (simp add: n initial_revision)
  have a: "map_of (task_statuses (snd (process_task_analysis (example_world ok_outcome sink) case_request ?s2))) ''CASE''
             = Some \<lparr>status = ''COMPLETED'', index = 2\<rparr>" for sink
    using process_registry [OF k, of "example_world ok_outcome sink"] by (simp add: n result_ok)
  have c1: "status_of ''CASE'' (snd (process_task_analysis ?bad case_request ?s2)) = Some ''COMPLETED''"
    by (simp add: status_of_def a)
  obtain s' where w: "worker_iteration ?bad case_request initial_system = Some s'"
      and ts: "task_statuses s' = task_statuses (update_task_status ''CASE'' ''ERROR''
                                   (snd (process_task_analysis ?bad case_request ?s2)))"
    using worker_iteration_fields [OF h1 refl, of ?bad case_request] by (auto simp: n example_world_def)
  have c2: "map_option (status_of ''CASE'') (worker_iteration ?bad case_request initial_system)
              = Some (Some ''ERROR'')"
    by (simp add: w status_of_def ts map_of_update_task_status a)
  obtain s'' where w2: "worker_iteration ?good case_request initial_system = Some s''"
      and ts2: "task_statuses s'' = task_statuses (snd (process_task_analysis ?good case_request ?s2))"
    using worker_iteration_fields [OF h1 refl, of ?good case_request] by (auto simp: n example_world_def)
  have c3: "map_option (status_of ''CASE'') (worker_iteration ?good case_request initial_system)
              = Some (Some ''COMPLETED'')"
    by (simp add: w2 status_of_def ts2 a)
  show ?thesis
    using c1 c2 c3 by blast
qed

section \<open>Properties of the heartbeat\<close>

lemma ping_items_fields:
  "events (snd (ping_items pw items s))
     = events s @ map (\<lambda>t. Ping t (ping_time pw)) (pinged pw (map fst items))
   \<and> task_statuses (snd (ping_items pw items s)) = task_statuses s"
proof (induction items arbitrary: s)
  case Nil
  then show ?case by simp
next
  case (Cons item items)
  obtain t info where i: "item = (t, info)" by (cases item)
  show ?case
  proof (cases "ping_response pw t")
    case (Inl e)
    then show ?thesis by (simp add: i Let_def)
  next
    case (Inr r)
    obtain code msg where r: "r = (code, msg)" by (cases r)
    show ?thesis
      using Inr Cons.IH by (simp add: i r Let_def)
  qed
qed

lemma ping_items_raises:
  "(fst (ping_items pw items s) \<noteq> None) = (\<exists>t \<in> set (map fst items). isl (ping_response pw t))"
proof (induction items arbitrary: s)
  case Nil
  then show ?case by simp
next
  case (Cons item items)
  obtain t info where i: "item = (t, info)" by (cases item)
  show ?case
  proof (cases "ping_response pw t")
    case (Inl e)
    then show ?thesis by (simp add: i Let_def)
  next
    case (Inr r)
    obtain code msg where r: "r = (code, msg)" by (cases r)
    show ?thesis
      using Inr Cons.IH by (simp add: i r Let_def)
  qed
qed

lemma ping_cycle_fields:
  "events (ping_cycle pw s) = events s @ ping_events pw s"
  "task_statuses (ping_cycle pw s) = task_statuses s"
  using ping_items_fields [of pw "task_statuses s" s]
  by (simp_all add: ping_cycle_def ping_events_def case_prod_unfold split: option.splits)

lemma ping_cycle_logged:
  assumes "\<exists>t \<in> set (map fst (task_statuses s)). isl (ping_response pw t)"
  shows "\<exists>e. last (logged (ping_cycle pw s)) = (ERROR, ''Error in ping status worker: '' @ str_exn e)"
proof -
  obtain e where "fst (ping_items pw (task_statuses s) s) = Some e"
    using assms ping_items_raises [of pw "task_statuses s" s] by auto
  then show ?thesis
    by (auto simp: ping_cycle_def case_prod_unfold)
qed

lemma ping_events_cong:
  "task_statuses s1 = task_statuses s2 \<Longrightarrow> ping_events pw s1 = ping_events pw s2"
  by (simp add: ping_events_def)

lemma ping_status_worker_fields:
  "events (ping_status_worker pws s) = events s @ concat (map (\<lambda>pw. ping_events pw s) pws)
   \<and> task_statuses (ping_status_worker pws s) = task_statuses s"
proof (induction pws arbitrary: s)
  case Nil
  then show ?case by simp
next
  case (Cons pw pws)
  have "\<And>q. ping_events q (ping_cycle pw s) = ping_events q s"
    by (rule ping_events_cong) (simp add: ping_cycle_fields)
  then show ?case
    using Cons.IH [of "ping_cycle pw s"] by (simp add: ping_cycle_fields)
qed

lemma pinged_all:
  "\<forall>t \<in> set ts. \<not> isl (ping_response pw t) \<Longrightarrow> pinged pw ts = ts"
  by (induction ts) auto

text \<open>
  Claim C8, as stated, fails for a failure that is an exception: the \<open>try\<close> of
  \<open>ping_status_worker\<close> encloses the whole \<open>for\<close> loop. Where the POST for
  \<open>CASE\<close> raises, the cycle sends that one ping and leaves the other task types out,
  \<open>BOX\<close> among them, whose POST would have succeeded.
\<close>

theorem heartbeat_exception_counterexample:
  "events (ping_cycle ping_case_raises initial_system) = [Ping ''CASE'' ''2025-01-01'']
   \<and> \<not> isl (ping_response ping_case_raises ''BOX'')
   \<and> Ping ''BOX'' ''2025-01-01'' \<notin> set (events (ping_cycle ping_case_raises initial_system))"
proof -
  have e: "events initial_system = []"
    by (simp add: initial_system_def AIControlSystem_init_def)
  show ?thesis
    by (simp add: ping_cycle_fields e ping_events_def initial_keys tracked_types_def
          ping_case_raises_def case_raises_def)
qed

lemma ping_items_exact:
  "(case ping_items pw items s of
      (None, s1) \<Rightarrow> s1
    | (Some e, s1) \<Rightarrow> log_error (''Error in ping status worker: '' @ str_exn e) s1)
   = s\<lparr>events := events s @ map (\<lambda>t. Ping t (ping_time pw)) (pinged pw (map fst items)),
        logged := logged s @ ping_logs pw (map fst items)\<rparr>"
proof (induction items arbitrary: s)
  case Nil
  then show ?case by simp
next
  case (Cons item items)
  obtain t info where i: "item = (t, info)" by (cases item)
  show ?case
  proof (cases "ping_response pw t")
    case (Inl e)
    then show ?thesis by (simp add: i Let_def emit_def log_error_def)
  next
    case (Inr r)
    obtain code msg where r: "r = (code, msg)" by (cases r)
    show ?thesis
      using Inr Cons.IH by (simp add: i r Let_def emit_def log_warning_def)
  qed
qed

lemma ping_cycle_exact:
  "ping_cycle pw s
     = s\<lparr>events := events s @ ping_events pw s,
          logged := logged s @ ping_logs pw (map fst (task_statuses s))\<rparr>"
  using ping_items_exact [of pw "task_statuses s" s]
  by (simp add: ping_cycle_def ping_events_def)

lemma ping_status_worker_exact:
  "ping_status_worker pws s
     = s\<lparr>events := events s @ concat (map (\<lambda>pw. ping_events pw s) pws),
          logged := logged s @ concat (map (\<lambda>pw. ping_logs pw (map fst (task_statuses s))) pws)\<rparr>"
proof (induction pws arbitrary: s)
  case Nil
  then show ?case by simp
next
  case (Cons pw pws)
  let ?s1 = "ping_cycle pw s"
  have t: "task_statuses ?s1 = task_statuses s"
    by (simp add: ping_cycle_exact)
  have e: "\<And>q. ping_events q ?s1 = ping_events q s"
    by (rule ping_events_cong) (rule t)
  show ?case
    by (simp add: Cons.IH e t) (simp add: ping_cycle_exact)
qed

lemma str_nat_503: "str_nat 503 = ''503''"
  by code_simp

text \<open>
  Claim C8, amended. The heartbeat loop never ends early and changes nothing but the
  events and the log: over any sequence of cycles it leaves the state it found with the
  pings of each cycle appended, in order, and the log records of each cycle appended.
  One cycle pings the task types in table order up to and including the first whose
  POST raises (\<open>pinged\<close>); it logs a warning, with the task type, the status code and
  the text, for each response other than 200, and goes on to the next task type; it logs
  the exception of the first POST that raises as an error and ends (\<open>ping_logs\<close>). A
  cycle in which no POST raises pings every task type.
\<close>

theorem heartbeat_isolation:
  "ping_status_worker pws s
     = s\<lparr>events := events s @ concat (map (\<lambda>pw. ping_events pw s) pws),
          logged := logged s @ concat (map (\<lambda>pw. ping_logs pw (map fst (task_statuses s))) pws)\<rparr>
   \<and> ping_cycle pw s
       = s\<lparr>events := events s @ ping_events pw s,
            logged := logged s @ ping_logs pw (map fst (task_statuses s))\<rparr>
   \<and> ((\<forall>t \<in> set (map fst (task_statuses s)). \<not> isl (ping_response pw t)) \<longrightarrow>
        ping_events pw s = map (\<lambda>t. Ping t (ping_time pw)) (map fst (task_statuses s)))"
  using ping_status_worker_exact [of pws s] ping_cycle_exact [of pw s]
  by (simp add: ping_events_def pinged_all)

text \<open>
  Two cycles: in the first the POST for \<open>CASE\<close> raises, in the second the one for
  \<open>BOX\<close> answers 503. The second cycle runs, pings all five task types, and logs the
  warning for \<open>BOX\<close>.
\<close>

theorem heartbeat_isolation_witness:
  "events (ping_status_worker [ping_case_raises, ping_box_unavailable] initial_system)
     = [Ping ''CASE'' ''2025-01-01'',
        Ping ''CASE'' ''2025-01-02'', Ping ''BOX'' ''2025-01-02'', Ping ''COVER'' ''2025-01-02'',
        Ping ''FORDING'' ''2025-01-02'', Ping ''FINAL'' ''2025-01-02'']
   \<and> logged (ping_status_worker [ping_case_raises, ping_box_unavailable] initial_system)
       = [(ERROR, ''Error in ping status worker: timed out''),
          (WARNING, ''Ping status update for BOX failed: 503 - unavailable'')]"
proof -
  have e: "events initial_system = []" "logged initial_system = []"
    by (simp_all add: initial_system_def AIControlSystem_init_def)
  have a: "ping_events ping_case_raises initial_system = [Ping ''CASE'' ''2025-01-01'']"
    by (simp add: ping_events_def initial_keys tracked_types_def ping_case_raises_def case_raises_def)
  have b: "ping_events ping_box_unavailable initial_system
             = [Ping ''CASE'' ''2025-01-02'', Ping ''BOX'' ''2025-01-02'', Ping ''COVER'' ''2025-01-02'',
                Ping ''FORDING'' ''2025-01-02'', Ping ''FINAL'' ''2025-01-02'']"
    by (simp add: ping_events_def initial_keys tracked_types_def ping_box_unavailable_def
          box_unavailable_def)
  have c: "ping_logs ping_case_raises tracked_types
             = [(ERROR, ''Error in ping status worker: timed out'')]"
    by (simp add: tracked_types_def ping_case_raises_def case_raises_def)
  have d: "ping_logs ping_box_unavailable tracked_types
             = [(WARNING, ''Ping status update for BOX failed: 503 - unavailable'')]"
    by (simp add: tracked_types_def ping_box_unavailable_def box_unavailable_def str_nat_503
          del: str_nat.simps)
  have "ping_status_worker [ping_case_raises, ping_box_unavailable] initial_system
          = initial_system
              \<lparr>events := events initial_system
                  @ concat (map (\<lambda>pw. ping_events pw initial_system)
                              [ping_case_raises, ping_box_unavailable]),
               logged := logged initial_system
                  @ concat (map (\<lambda>pw. ping_logs pw (map fst (task_statuses initial_system)))
                              [ping_case_raises, ping_box_unavailable])\<rparr>"
    using heartbeat_isolation
            [of "[ping_case_raises, ping_box_unavailable]" initial_system ping_box_unavailable]
    by (rule conjunct1)
  then show ?thesis
    by (simp add: e a b c d initial_keys)
qed

section \<open>The worker loop and the registry invariant\<close>

lemma keys_process_task_analysis:
  "map fst (task_statuses (snd (process_task_analysis w req s))) = map fst (task_statuses s)"
  by (simp add: process_task_analysis_def task_analysis_body_def Let_def case_prod_unfold
        keys_update_task_status split: sum.splits)

lemma known_registry_process:
  "known_registry (snd (process_task_analysis w req s)) = known_registry s"
  by (simp add: known_registry_def keys_process_task_analysis)

lemma known_registry_worker:
  assumes "worker_iteration w req s = Some s'"
  shows "known_registry s' = known_registry s"
proof -
  have l: "\<not> global_task_lock s"
    using assms by (auto simp: worker_iteration_def split: if_splits)
  let ?p = "process_task_analysis w req (s\<lparr>global_task_lock := True, is_processing := True\<rparr>)"
  have "map fst (task_statuses s') = map fst (task_statuses (snd ?p))"
    using worker_iteration_fields [OF l refl, of w req] assms
    by (auto simp: keys_update_task_status split: option.splits)
  then show ?thesis
    by (simp add: known_registry_def keys_process_task_analysis)
qed

text \<open>
  The worker never stops on a request: from a free lock, every list of requests is
  worked through, and the lock is free again at the end.
\<close>

lemma global_task_worker_runs:
  "\<not> global_task_lock s \<Longrightarrow>
   \<exists>s'. global_task_worker rs s = Some s' \<and> \<not> global_task_lock s'"
proof (induction rs arbitrary: s)
  case Nil
  then show ?case by simp
next
  case (Cons r rs)
  obtain w req where r: "r = (w, req)" by (cases r)
  obtain s1 where "worker_iteration w req s = Some s1" "\<not> global_task_lock s1"
    using worker_iteration_fields [OF Cons.prems refl, of w req] by blast
  then show ?case
    using Cons.IH [of s1] by (simp add: r)
qed

lemma tracks_all_track_and_upload:
  "tracks_all (file_tracker (snd (track_and_upload w t ar s))) = tracks_all (file_tracker s)"
  by (simp add: track_and_upload_def Let_def tracks_all_add_file split: option.splits)

lemma tracks_all_process:
  "tracks_all (file_tracker (snd (process_task_analysis w req s))) = tracks_all (file_tracker s)"
  by (simp add: process_tracker_events task_analysis_body_def Let_def case_prod_unfold
        tracks_all_track_and_upload split: sum.splits)

lemma tracks_all_worker:
  assumes "worker_iteration w req s = Some s'"
  shows "tracks_all (file_tracker s') = tracks_all (file_tracker s)"
proof -
  have l: "\<not> global_task_lock s"
    using assms by (auto simp: worker_iteration_def split: if_splits)
  let ?s2 = "s\<lparr>global_task_lock := True, is_processing := True\<rparr>"
  have "file_tracker s' = file_tracker (snd (process_task_analysis w req ?s2))"
    using worker_iteration_fields [OF l refl, of w req] assms by auto
  then show ?thesis
    using tracks_all_process [of w req ?s2] by simp
qed

lemma tracks_all_initial: "tracks_all (file_tracker (AIControlSystem_init f (FileTracker_init d wr)))"
  by (simp add: AIControlSystem_init_def tracks_all_init)

end
